theory Spec2Isabelle
  imports Main "HOL-Library.Sublist"
begin

section \<open>JavaScript strings and numbers used by the query node\<close>

text \<open>
  Strings are lists of characters. The questions are taken to be ASCII text, so
  \<open>String.prototype.toLowerCase\<close> maps \<open>A..Z\<close> to \<open>a..z\<close> and leaves every other
  character alone.
\<close>

definition lowerChar :: "char \<Rightarrow> char" where
  "lowerChar c =
     (if 65 \<le> (of_char c :: nat) \<and> (of_char c :: nat) \<le> 90
      then char_of ((of_char c :: nat) + 32) else c)"

definition toLowerCase :: "string \<Rightarrow> string" where
  "toLowerCase s = map lowerChar s"

text \<open>\<open>s.includes(k)\<close>: \<open>k\<close> occurs in \<open>s\<close> as a contiguous substring.\<close>

fun includesStr :: "string \<Rightarrow> string \<Rightarrow> bool" where
  "includesStr [] k = (k = [])"
| "includesStr (c # cs) k = (prefix k (c # cs) \<or> includesStr cs k)"

text \<open>\<open>xs.join(sep)\<close>.\<close>

fun join :: "string \<Rightarrow> string list \<Rightarrow> string" where
  "join sep [] = []"
| "join sep [x] = x"
| "join sep (x # y # ys) = x @ sep @ join sep (y # ys)"

text \<open>\<open>s.replace(c, r)\<close> with a one-character string pattern: only the first occurrence
  is replaced.\<close>

fun replaceFirst :: "char \<Rightarrow> string \<Rightarrow> string \<Rightarrow> string" where
  "replaceFirst c r [] = []"
| "replaceFirst c r (x # xs) = (if x = c then r @ xs else x # replaceFirst c r xs)"

text \<open>The regular-expression class \<open>\d\<close> is the ten ASCII digits.\<close>

definition isDigit :: "char \<Rightarrow> bool" where
  "isDigit c = (c \<in> set ''0123456789'')"

definition digitVal :: "char \<Rightarrow> nat" where
  "digitVal c = (of_char c :: nat) - 48"

definition digitChar :: "nat \<Rightarrow> char" where
  "digitChar d = char_of (48 + d)"

text \<open>The mathematical integer written by a digit string.\<close>

definition natOfDigits :: "string \<Rightarrow> nat" where
  "natOfDigits ds = foldl (\<lambda>acc c. 10 * acc + digitVal c) 0 ds"

text \<open>The decimal digits of a natural number, without leading zeros.\<close>

fun showNat :: "nat \<Rightarrow> string" where
  "showNat n = (if n < 10 then [digitChar n] else showNat (n div 10) @ [digitChar (n mod 10)])"

declare showNat.simps [simp del]

text \<open>
  A JavaScript Number that \<open>parseInt\<close> can return for a non-empty digit string: a
  non-negative integer-valued double, or \<open>+Infinity\<close>.
\<close>

datatype number = Num nat | Infinity

text \<open>Number of binary digits of a natural number.\<close>

fun bitLength :: "nat \<Rightarrow> nat" where
  "bitLength n = (if n = 0 then 0 else Suc (bitLength (n div 2)))"

declare bitLength.simps [simp del]

text \<open>
  The Number value of a mathematical integer: exact up to 53 significant bits, beyond
  that rounded to the nearest double (ties to the even significand), and \<open>+Infinity\<close> once
  the rounded value reaches \<open>2^1024\<close>.
\<close>

definition toDouble :: "nat \<Rightarrow> number" where
  "toDouble n =
     (if bitLength n \<le> 53 then Num n
      else let e = bitLength n - 53;
               q = n div 2 ^ e;
               r = n mod 2 ^ e;
               m = (if 2 * r > 2 ^ e \<or> (2 * r = 2 ^ e \<and> odd q) then q + 1 else q);
               v = m * 2 ^ e
           in if v \<ge> 2 ^ 1024 then Infinity else Num v)"

text \<open>\<open>parseInt(ds)\<close> on a string of decimal digits (the only way the node calls it).\<close>

definition parseInt :: "string \<Rightarrow> number" where
  "parseInt ds = toDouble (natOfDigits ds)"

text \<open>\<open>x > 0\<close> on such a Number.\<close>

fun positive :: "number \<Rightarrow> bool" where
  "positive (Num n) = (0 < n)"
| "positive Infinity = True"

text \<open>
  \<open>Number::toString\<close> in radix 10, for the Numbers above. The digits are the shortest
  decimal significand \<open>s\<close> (of \<open>k\<close> digits, with decimal exponent position \<open>n\<close>) for
  which \<open>s * 10^(n-k)\<close> converts back to the same double; with \<open>n \<le> 21\<close> they are
  written out followed by \<open>n - k\<close> zeros, otherwise in exponent notation.
\<close>

definition roundTrips :: "nat \<Rightarrow> nat \<Rightarrow> bool" where
  "roundTrips x m = (toDouble m = Num x)"

definition absDiff :: "nat \<Rightarrow> nat \<Rightarrow> nat" where
  "absDiff a b = (if a \<le> b then b - a else a - b)"

text \<open>\<open>shortestFrom x d j\<close> searches significands of \<open>d - j\<close> digits, then longer ones;
  \<open>d\<close> is the number of decimal digits of \<open>x\<close>, and with \<open>j = 0\<close> the significand is
  \<open>x\<close> itself.\<close>

fun shortestFrom :: "nat \<Rightarrow> nat \<Rightarrow> nat \<Rightarrow> nat \<times> nat" where
  "shortestFrom x d 0 = (x, d)"
| "shortestFrom x d (Suc j) =
     (let k = d - Suc j;
          p = 10 ^ Suc j;
          lo = x div p;
          hi = lo + 1;
          okLo = (k \<ge> 1 \<and> roundTrips x (lo * p));
          okHi = (k \<ge> 1 \<and> hi < 10 ^ k \<and> roundTrips x (hi * p))
      in if okLo \<and> okHi then
           (if absDiff x (lo * p) < absDiff x (hi * p) \<or> (absDiff x (lo * p) = absDiff x (hi * p) \<and> even lo)
            then (lo, k) else (hi, k))
         else if okLo then (lo, k)
         else if okHi then (hi, k)
         else shortestFrom x d j)"

definition numberToString :: "number \<Rightarrow> string" where
  "numberToString x =
     (case x of
        Infinity \<Rightarrow> ''Infinity''
      | Num v \<Rightarrow>
          if v = 0 then ''0''
          else let d = length (showNat v);
                   (s, k, n) = (if roundTrips v (10 ^ d) then (1, 1, d + 1)
                                else (let (s, k) = shortestFrom v d (d - 1) in (s, k, d)));
                   digits = showNat s
               in if n \<le> 21 then digits @ replicate (n - k) (CHR ''0'')
                  else if k = 1 then digits @ ''e+'' @ showNat (n - 1)
                  else hd digits # CHR ''.'' # tl digits @ ''e+'' @ showNat (n - 1))"

section \<open>Regular-expression searches of \<open>extractLimit\<close>\<close>

text \<open>
  \<open>query.match(re)\<close> with a non-global expression tries the start positions from left to
  right and returns the first position where the expression matches; \<open>regexSearch m\<close>
  does that for a matcher \<open>m\<close> anchored at the start of its argument. The result is
  capture group 1.
\<close>

fun regexSearch :: "(string \<Rightarrow> string option) \<Rightarrow> string \<Rightarrow> string option" where
  "regexSearch m [] = m []"
| "regexSearch m (c # cs) = (case m (c # cs) of Some r \<Rightarrow> Some r | None \<Rightarrow> regexSearch m cs)"

text \<open>\<open>(\d+)\<close> at the start of a string: the greedy, non-empty run of digits.\<close>

definition digitRun :: "string \<Rightarrow> string option" where
  "digitRun s = (let ds = takeWhile isDigit s in if ds = [] then None else Some ds)"

text \<open>\<open>/top (\d+)/\<close> and \<open>/first (\d+)/\<close>, anchored: a literal word and a blank, then the
  digit run.\<close>

definition wordThenDigits :: "string \<Rightarrow> string \<Rightarrow> string option" where
  "wordThenDigits w s = (if prefix w s then digitRun (drop (length w) s) else None)"

text \<open>
  \<open>/(\d+) (top|best|worst)/\<close>, anchored. The digit run is followed by a blank, so giving
  back digits of the greedy run can never make the rest match: only the full run is
  tried.
\<close>

definition digitsThenWord :: "string \<Rightarrow> string option" where
  "digitsThenWord s =
     (let ds = takeWhile isDigit s; rest = dropWhile isDigit s
      in if ds \<noteq> [] \<and> (prefix '' top'' rest \<or> prefix '' best'' rest \<or> prefix '' worst'' rest)
         then Some ds else None)"

section \<open>Data of the query node\<close>

record DateRange =
  dr_type :: string
  dr_sql :: string
  dr_parameters :: "string list option"

record Aggregation =
  agg_type :: string
  agg_function :: string

record Comparison =
  cmp_type :: string
  cmp_direction :: string

record Components =
  department :: "string option"
  dateRange :: DateRange
  aggregation :: Aggregation
  metrics :: "string list"
  comparison :: Comparison
  limit :: number

record GeneratedQuery =
  sql :: string
  parameters :: "string list"
  explanation :: string
  matched_patterns :: "string list"
  department_filter :: "string option"
  date_filter :: string
  aggregation_type :: string

record BusinessQueryInput =
  query :: string
  in_department :: "string option"
  in_date_range :: "string option"
  in_debug :: "bool option"

text \<open>The schema description stored by the schema-discovery node.\<close>

record ColumnInfo =
  column_name :: string
  data_type :: string
  is_nullable :: bool
  column_default :: "string option"
  is_primary_key :: bool

record TableInfo =
  table_name :: string
  table_type :: string
  columns :: "ColumnInfo list"

record DatabaseSchema =
  schema_name :: string
  tables :: "TableInfo list"
  total_tables :: nat
  discovery_timestamp :: string

text \<open>
  The context variables this node reads and writes, and the context that carries them.
  Both records are extensible: the extension stands for every other variable and every
  other part of the context.
\<close>

record Vars =
  database_schema :: "DatabaseSchema option"
  generated_query :: "string option"
  query_parameters :: "string list option"

record 'v Context =
  vars :: "'v Vars_scheme option"

record GlobalError =
  err_message :: string
  err_code :: nat
  err_name :: string

text \<open>An optional string is truthy when it is present and not empty.\<close>

definition truthy :: "string option \<Rightarrow> bool" where
  "truthy v = (case v of None \<Rightarrow> False | Some s \<Rightarrow> s \<noteq> [])"

section \<open>The extractors\<close>

definition departmentPatterns :: "(string \<times> string list) list" where
  "departmentPatterns =
     [(''sales'', [''sales'', ''revenue'', ''pipeline'', ''arr'', ''deals'']),
      (''finance'', [''finance'', ''financial'', ''cash'', ''burn'', ''runway'', ''expenses'']),
      (''devrel'', [''devrel'', ''developer'', ''github'', ''community'', ''twitter'', ''discord'']),
      (''hr'', [''hr'', ''human resources'', ''employee'', ''hiring'', ''turnover'', ''satisfaction'']),
      (''events'', [''events'', ''conferences'', ''meetups'', ''attendees'', ''signups'']),
      (''compliance'', [''compliance'', ''security'', ''vulnerabilities'', ''training'', ''audit''])]"

fun firstDepartment :: "string \<Rightarrow> (string \<times> string list) list \<Rightarrow> string option" where
  "firstDepartment q [] = None"
| "firstDepartment q ((dept, keywords) # rest) =
     (if list_ex (\<lambda>keyword. includesStr q keyword) keywords then Some dept
      else firstDepartment q rest)"

definition extractDepartment :: "string \<Rightarrow> string option \<Rightarrow> string option" where
  "extractDepartment q explicitDept =
     (if truthy explicitDept then explicitDept else firstDepartment q departmentPatterns)"

definition parseDateRange :: "string \<Rightarrow> DateRange" where
  "parseDateRange rng =
     (let rangeLower = toLowerCase rng
      in if rangeLower = ''q4''
         then \<lparr>dr_type = ''q4'', dr_sql = ''EXTRACT(QUARTER FROM m.metric_date) = 4'',
               dr_parameters = Some []\<rparr>
         else \<lparr>dr_type = ''custom'', dr_sql = [], dr_parameters = Some []\<rparr>)"

definition extractDateRange :: "string \<Rightarrow> string option \<Rightarrow> DateRange" where
  "extractDateRange q explicitRange =
     (if truthy explicitRange then parseDateRange (the explicitRange)
      else if includesStr q ''q4'' \<or> includesStr q ''fourth quarter'' then
        \<lparr>dr_type = ''q4'',
         dr_sql = ''EXTRACT(QUARTER FROM m.metric_date) = 4 AND EXTRACT(YEAR FROM m.metric_date) = EXTRACT(YEAR FROM CURRENT_DATE)'',
         dr_parameters = Some []\<rparr>
      else if includesStr q ''q1'' \<or> includesStr q ''first quarter'' then
        \<lparr>dr_type = ''q1'',
         dr_sql = ''EXTRACT(QUARTER FROM m.metric_date) = 1 AND EXTRACT(YEAR FROM m.metric_date) = EXTRACT(YEAR FROM CURRENT_DATE)'',
         dr_parameters = Some []\<rparr>
      else if includesStr q ''last month'' then
        \<lparr>dr_type = ''last_month'',
         dr_sql = ''m.metric_date >= DATE_TRUNC('month', CURRENT_DATE - INTERVAL '1 month') AND m.metric_date < DATE_TRUNC('month', CURRENT_DATE)'',
         dr_parameters = Some []\<rparr>
      else if includesStr q ''this month'' then
        \<lparr>dr_type = ''this_month'',
         dr_sql = ''m.metric_date >= DATE_TRUNC('month', CURRENT_DATE)'',
         dr_parameters = Some []\<rparr>
      else if includesStr q ''this year'' then
        \<lparr>dr_type = ''this_year'',
         dr_sql = ''EXTRACT(YEAR FROM m.metric_date) = EXTRACT(YEAR FROM CURRENT_DATE)'',
         dr_parameters = Some []\<rparr>
      else \<lparr>dr_type = ''none'', dr_sql = [], dr_parameters = Some []\<rparr>)"

definition extractAggregation :: "string \<Rightarrow> Aggregation" where
  "extractAggregation q =
     (if includesStr q ''total'' \<or> includesStr q ''sum'' then
        \<lparr>agg_type = ''sum'', agg_function = ''SUM''\<rparr>
      else if includesStr q ''average'' \<or> includesStr q ''avg'' then
        \<lparr>agg_type = ''avg'', agg_function = ''AVG''\<rparr>
      else if includesStr q ''count'' \<or> includesStr q ''number of'' then
        \<lparr>agg_type = ''count'', agg_function = ''COUNT''\<rparr>
      else if includesStr q ''growth'' \<or> includesStr q ''trend'' then
        \<lparr>agg_type = ''growth'', agg_function = ''SUM''\<rparr>
      else \<lparr>agg_type = ''none'', agg_function = []\<rparr>)"

definition metricPatterns :: "(string \<times> string list) list" where
  "metricPatterns =
     [(''pipeline'', [''total_pipeline'', ''channel_partner_pipeline'']),
      (''revenue'', [''actual_arr'', ''potential_arr'']),
      (''cash'', [''cash_available'', ''cash_burn_rate'']),
      (''satisfaction'', [''employee_satisfaction'']),
      (''turnover'', [''employee_turnover_rate'']),
      (''followers'', [''twitter_followers'']),
      (''stars'', [''github_stars''])]"

fun foundMetrics :: "string \<Rightarrow> (string \<times> string list) list \<Rightarrow> string list" where
  "foundMetrics q [] = []"
| "foundMetrics q ((keyword, ms) # rest) =
     (if includesStr q keyword then ms @ foundMetrics q rest else foundMetrics q rest)"

definition extractMetrics :: "string \<Rightarrow> string list" where
  "extractMetrics q = foundMetrics q metricPatterns"

definition extractComparison :: "string \<Rightarrow> Comparison" where
  "extractComparison q =
     (if includesStr q ''top'' \<or> includesStr q ''best'' \<or> includesStr q ''highest'' then
        \<lparr>cmp_type = ''top'', cmp_direction = ''DESC''\<rparr>
      else if includesStr q ''bottom'' \<or> includesStr q ''worst'' \<or> includesStr q ''lowest'' then
        \<lparr>cmp_type = ''bottom'', cmp_direction = ''ASC''\<rparr>
      else \<lparr>cmp_type = ''none'', cmp_direction = []\<rparr>)"

definition limitPatterns :: "(string \<Rightarrow> string option) list" where
  "limitPatterns = [wordThenDigits ''top '', wordThenDigits ''first '', digitsThenWord]"

fun firstLimitMatch :: "(string \<Rightarrow> string option) list \<Rightarrow> string \<Rightarrow> string option" where
  "firstLimitMatch [] q = None"
| "firstLimitMatch (pattern # rest) q =
     (case regexSearch pattern q of Some g \<Rightarrow> Some g | None \<Rightarrow> firstLimitMatch rest q)"

definition extractLimit :: "string \<Rightarrow> number" where
  "extractLimit q =
     (case firstLimitMatch limitPatterns q of
        Some g \<Rightarrow> parseInt g
      | None \<Rightarrow> if includesStr q ''top'' \<or> includesStr q ''best'' then Num 10 else Num 0)"

section \<open>The SQL assembler\<close>

definition buildAggregationSelect :: "Aggregation \<Rightarrow> string" where
  "buildAggregationSelect a =
     (if agg_type a = ''growth''
      then ''d.name as department, m.metric_name, '' @ ''AVG(m.monthly_change_percent) as growth_rate''
      else ''d.name as department, m.metric_name, '' @ agg_function a
             @ ''(m.metric_value) as aggregated_value'')"

definition buildGroupBy :: "Aggregation \<Rightarrow> bool \<Rightarrow> string" where
  "buildGroupBy a includeDepartment =
     (if includeDepartment then '' GROUP BY d.name, m.metric_name''
      else '' GROUP BY m.metric_name'')"

definition buildOrderBy :: "Comparison \<Rightarrow> Aggregation \<Rightarrow> string" where
  "buildOrderBy c a =
     (if cmp_type c = ''none'' then '' ORDER BY m.metric_date DESC''
      else let orderColumn =
                 (if agg_type a \<noteq> ''none''
                  then (if agg_type a = ''growth'' then ''growth_rate'' else ''aggregated_value'')
                  else ''m.metric_value'')
           in '' ORDER BY '' @ orderColumn @ '' '' @ cmp_direction c)"

definition generateExplanation :: "Components \<Rightarrow> string list \<Rightarrow> string" where
  "generateExplanation components patterns =
     (let e0 = ''Generated SQL query to '';
          e1 = (if agg_type (aggregation components) \<noteq> ''none''
                then e0 @ ''calculate '' @ agg_type (aggregation components) @ '' of ''
                else e0 @ ''retrieve '');
          e2 = (if length (metrics components) > 0
                then e1 @ join '', '' (metrics components) @ '' metrics''
                else e1 @ ''metrics'');
          e3 = (if truthy (department components)
                then e2 @ '' for '' @ the (department components) @ '' department''
                else e2);
          e4 = (if dr_type (dateRange components) \<noteq> ''none''
                then e3 @ '' filtered by ''
                        @ replaceFirst (CHR ''_'') '' '' (dr_type (dateRange components))
                else e3);
          e5 = (if cmp_type (comparison components) \<noteq> ''none''
                then e4 @ '' showing '' @ cmp_type (comparison components) @ '' results''
                else e4)
      in e5 @ ''. Matched patterns: '' @ join '', '' patterns @ ''.'')"

text \<open>The placeholders \<open>$p+1, $p+2, ...\<close> of the metric list, one per metric, where \<open>p\<close>
  parameters are already bound.\<close>

definition metricPlaceholders :: "nat \<Rightarrow> string list \<Rightarrow> string" where
  "metricPlaceholders p ms =
     join '', '' (map (\<lambda>index. ''$'' @ showNat (p + index + 1)) [0 ..< length ms])"

definition generateSQLFromNaturalLanguage ::
  "string \<Rightarrow> DatabaseSchema \<Rightarrow> string option \<Rightarrow> string option \<Rightarrow> bool \<Rightarrow> GeneratedQuery" where
  "generateSQLFromNaturalLanguage qry dbSchema departmentFilter dateRangeIn debug =
     (let queryLower = toLowerCase qry;
          dept = extractDepartment queryLower departmentFilter;
          components = \<lparr>department = (if truthy dept then dept else None),
                        dateRange = extractDateRange queryLower dateRangeIn,
                        aggregation = extractAggregation queryLower,
                        metrics = extractMetrics queryLower,
                        comparison = extractComparison queryLower,
                        limit = extractLimit queryLower\<rparr>;
          sql0 = ''SELECT '';
          parameters0 = [];
          (sql1, patterns1) =
             (if agg_type (aggregation components) = ''none''
              then (sql0 @ ''d.name as department, m.metric_name, m.metric_value, m.metric_date'',
                    [''basic_selection''])
              else (sql0 @ buildAggregationSelect (aggregation components),
                    [''aggregation_'' @ agg_type (aggregation components)]));
          sql2 = sql1 @ '' FROM metrics m'';
          sql3 = sql2 @ '' INNER JOIN departments d ON m.department_id = d.id'';
          where0 = [];
          (where1, parameters1, patterns2) =
             (if truthy (department components)
              then (where0 @ [''d.code = $'' @ showNat (length parameters0 + 1)],
                    parameters0 @ [the (department components)],
                    patterns1 @ [''department_filter''])
              else (where0, parameters0, patterns1));
          (where2, parameters2, patterns3) =
             (if dr_sql (dateRange components) \<noteq> []
              then (where1 @ [dr_sql (dateRange components)],
                    (case dr_parameters (dateRange components) of
                       Some ps \<Rightarrow> parameters1 @ ps
                     | None \<Rightarrow> parameters1),
                    patterns2 @ [''date_filter_'' @ dr_type (dateRange components)])
              else (where1, parameters1, patterns2));
          (where3, parameters3, patterns4) =
             (if length (metrics components) > 0
              then (where2 @ [''m.metric_name IN (''
                                @ metricPlaceholders (length parameters2) (metrics components)
                                @ '')''],
                    parameters2 @ metrics components,
                    patterns3 @ [''metric_filter''])
              else (where2, parameters2, patterns3));
          sql4 = (if length where3 > 0 then sql3 @ '' WHERE '' @ join '' AND '' where3 else sql3);
          sql5 = (if agg_type (aggregation components) \<noteq> ''none''
                  then sql4 @ buildGroupBy (aggregation components)
                                (if truthy (department components) then False else True)
                  else sql4);
          sql6 = sql5 @ buildOrderBy (comparison components) (aggregation components);
          patterns5 = (if cmp_type (comparison components) \<noteq> ''none''
                       then patterns4 @ [''comparison_'' @ cmp_type (comparison components)]
                       else patterns4);
          (sql7, patterns6) =
             (if positive (limit components)
              then (sql6 @ '' LIMIT '' @ numberToString (limit components),
                    patterns5 @ [''limit_results''])
              else (sql6, patterns5));
          explanation = generateExplanation components patterns6
      in \<lparr>sql = sql7,
          parameters = parameters3,
          explanation = explanation,
          matched_patterns = patterns6,
          department_filter = department components,
          date_filter = dr_type (dateRange components),
          aggregation_type = agg_type (aggregation components)\<rparr>)"

section \<open>The node's entry point\<close>

text \<open>
  \<open>handle\<close> returns the response (the error or the generated query) and the context as
  it leaves it. The stack trace copied into the error is not modelled. The test
  \<open>if (!ctx.vars) ctx.vars = {}\<close> after the generation cannot fire: the schema was read
  from \<open>ctx.vars\<close>, so the variables exist there.
\<close>

definition schemaMissing :: GlobalError where
  "schemaMissing =
     \<lparr>err_message = ''Database schema not found. Please run schema-discovery node first.'',
      err_code = 500, err_name = []\<rparr>"

text \<open>\<open>ctx.vars?.database_schema\<close>: absent when the context has no variables at all, or
  none of that name.\<close>

definition lookupSchema :: "('v, 'c) Context_scheme \<Rightarrow> DatabaseSchema option" where
  "lookupSchema ctx = (case vars ctx of None \<Rightarrow> None | Some vs \<Rightarrow> database_schema vs)"

definition handle ::
  "string \<Rightarrow> ('v, 'c) Context_scheme \<Rightarrow> BusinessQueryInput
     \<Rightarrow> ('v, 'c) Context_scheme \<times> (GlobalError + GeneratedQuery)" where
  "handle nodeName ctx inputs =
     (case lookupSchema ctx of
        None \<Rightarrow> (ctx, Inl (schemaMissing\<lparr>err_name := nodeName\<rparr>))
      | Some dbSchema \<Rightarrow>
          (let generatedQuery =
                 generateSQLFromNaturalLanguage (query inputs) dbSchema (in_department inputs)
                   (in_date_range inputs) (case in_debug inputs of None \<Rightarrow> False | Some b \<Rightarrow> b);
               vs = (case vars ctx of Some vs \<Rightarrow> vs);
               ctx' = ctx\<lparr>vars := Some (vs\<lparr>generated_query := Some (sql generatedQuery),
                                            query_parameters := Some (parameters generatedQuery)\<rparr>)\<rparr>
           in (ctx', Inr generatedQuery)))"

section \<open>Reading a generated statement\<close>

text \<open>
  The positional placeholders of a SQL text, in the order they occur: every \<open>$\<close> that is
  followed by at least one digit, read as the number its digit run writes.
\<close>

fun placeholders :: "string \<Rightarrow> nat list" where
  "placeholders [] = []"
| "placeholders (c # cs) =
     (if c = CHR ''$''
      then (if takeWhile isDigit cs \<noteq> []
            then natOfDigits (takeWhile isDigit cs) # placeholders cs
            else placeholders cs)
      else placeholders cs)"

text \<open>A string that does not begin with a digit.\<close>

fun noLeadDigit :: "string \<Rightarrow> bool" where
  "noLeadDigit [] = True"
| "noLeadDigit (c # cs) = (\<not> isDigit c)"

section \<open>What the limit expressions match\<close>

text \<open>
  The meaning of the three regular expressions, stated without an algorithm. At the start
  of \<open>s\<close>, \<open>/w(\d+)/\<close> for a literal \<open>w\<close> matches with capture \<open>ds\<close> when \<open>s\<close> is
  \<open>w\<close>, then the non-empty digit string \<open>ds\<close>, then a rest that does not go on with a
  digit (the quantifier is greedy).
\<close>

definition matchesWordDigits :: "string \<Rightarrow> string \<Rightarrow> string \<Rightarrow> bool" where
  "matchesWordDigits w s ds \<longleftrightarrow>
     ds \<noteq> [] \<and> list_all isDigit ds \<and> (\<exists>post. s = w @ ds @ post \<and> noLeadDigit post)"

text \<open>\<open>/(\d+) (top|best|worst)/\<close> at the start of \<open>s\<close>: a non-empty digit string, a blank,
  and one of the three words.\<close>

definition matchesDigitsWord :: "string \<Rightarrow> string \<Rightarrow> bool" where
  "matchesDigitsWord s ds \<longleftrightarrow>
     ds \<noteq> [] \<and> list_all isDigit ds \<and>
     (\<exists>post. s = ds @ '' top'' @ post \<or> s = ds @ '' best'' @ post \<or> s = ds @ '' worst'' @ post)"

text \<open>
  \<open>q.match\<close> returns the match at the leftmost position that has one: \<open>firstMatch M q ds\<close>
  says that the expression with anchored meaning \<open>M\<close> matches in \<open>q\<close> with capture \<open>ds\<close>
  there, \<open>noMatch M q\<close> that it matches nowhere in \<open>q\<close>.
\<close>

definition firstMatch :: "(string \<Rightarrow> string \<Rightarrow> bool) \<Rightarrow> string \<Rightarrow> string \<Rightarrow> bool" where
  "firstMatch M q ds \<longleftrightarrow>
     (\<exists>pre s. q = pre @ s \<and> M s ds \<and>
        (\<forall>pre' s' ds'. q = pre' @ s' \<and> length pre' < length pre \<longrightarrow> \<not> M s' ds'))"

definition noMatch :: "(string \<Rightarrow> string \<Rightarrow> bool) \<Rightarrow> string \<Rightarrow> bool" where
  "noMatch M q \<longleftrightarrow> (\<forall>pre s ds. q = pre @ s \<longrightarrow> \<not> M s ds)"

text \<open>A schema description as the discovery node stores it, for the examples.\<close>

definition sampleSchema :: DatabaseSchema where
  "sampleSchema =
     \<lparr>schema_name = ''public'',
      tables = [\<lparr>table_name = ''metrics'', table_type = ''BASE TABLE'',
                 columns = [\<lparr>column_name = ''metric_name'', data_type = ''character varying'',
                             is_nullable = False, column_default = None,
                             is_primary_key = False\<rparr>]\<rparr>],
      total_tables = 1,
      discovery_timestamp = ''2024-01-01T00:00:00.000Z''\<rparr>"

text \<open>Two contexts, before and after schema discovery, and a request, for the examples.\<close>

definition bareContext :: "unit Context" where
  "bareContext = \<lparr>vars = None\<rparr>"

definition discoveredContext :: "unit Context" where
  "discoveredContext =
     \<lparr>vars = Some \<lparr>database_schema = Some sampleSchema, generated_query = None,
                    query_parameters = None\<rparr>\<rparr>"

definition helloInput :: BusinessQueryInput where
  "helloInput = \<lparr>query = ''hello'', in_department = None, in_date_range = None, in_debug = None\<rparr>"

section \<open>Digits, decimal rendering and rounding to a double\<close>

lemma digitChar_table:
  "list_all (\<lambda>d. isDigit (digitChar d) \<and> digitVal (digitChar d) = d \<and> digitChar d \<noteq> CHR ''$'') [0 ..< 10]"
  by code_simp

lemma digitChar_props:
  assumes "d < 10"
  shows "isDigit (digitChar d)" and "digitVal (digitChar d) = d" and "digitChar d \<noteq> CHR ''$''"
proof -
  have "d \<in> set [0 ..< 10]" using assms by simp
  with digitChar_table
  have "isDigit (digitChar d) \<and> digitVal (digitChar d) = d \<and> digitChar d \<noteq> CHR ''$''"
    unfolding list_all_iff by blast
  then show "isDigit (digitChar d)" and "digitVal (digitChar d) = d" and "digitChar d \<noteq> CHR ''$''"
    by simp_all
qed

lemmas isDigit_digitChar = digitChar_props(1)
lemmas digitVal_digitChar = digitChar_props(2)
lemmas digitChar_not_dollar = digitChar_props(3)

lemma digitChar_zero: "digitChar 0 = CHR ''0''"
  by code_simp

lemma showNat_nonempty: "showNat n \<noteq> []"
  by (subst showNat.simps) simp

lemma showNat_digits: "list_all isDigit (showNat n)"
proof (induction n rule: showNat.induct)
  case (1 n)
  show ?case
  proof (cases "n < 10")
    case True
    then show ?thesis by (subst showNat.simps) (simp add: isDigit_digitChar)
  next
    case False
    with 1 show ?thesis by (subst showNat.simps) (simp add: isDigit_digitChar)
  qed
qed

lemma natOfDigits_snoc: "natOfDigits (ds @ [c]) = 10 * natOfDigits ds + digitVal c"
  by (simp add: natOfDigits_def)

lemma natOfDigits_showNat: "natOfDigits (showNat n) = n"
proof (induction n rule: showNat.induct)
  case (1 n)
  show ?case
  proof (cases "n < 10")
    case True
    then show ?thesis by (subst showNat.simps) (simp add: natOfDigits_def digitVal_digitChar)
  next
    case False
    with 1 show ?thesis
      by (subst showNat.simps) (simp add: natOfDigits_snoc digitVal_digitChar)
  qed
qed

lemma showNat_times10: "0 < n \<Longrightarrow> showNat (10 * n) = showNat n @ ''0''"
  by (subst showNat.simps) (simp add: digitChar_zero)

lemma showNat_times_pow10: "0 < n \<Longrightarrow> showNat (n * 10 ^ j) = showNat n @ replicate j (CHR ''0'')"
proof (induction j)
  case 0
  then show ?case by simp
next
  case (Suc j)
  have "showNat (n * 10 ^ Suc j) = showNat (10 * (n * 10 ^ j))" by (simp add: mult.commute mult.left_commute)
  also have "\<dots> = showNat (n * 10 ^ j) @ ''0''" using Suc.prems by (intro showNat_times10) simp
  also have "\<dots> = showNat n @ replicate (Suc j) (CHR ''0'')"
    using Suc by (simp add: replicate_append_same)
  finally show ?case .
qed

lemma showNat_length_bound: "n < 10 ^ length (showNat n)"
proof (induction n rule: showNat.induct)
  case (1 n)
  show ?case
  proof (cases "n < 10")
    case True
    then show ?thesis by (subst showNat.simps) simp
  next
    case False
    with 1 have ih: "n div 10 < 10 ^ length (showNat (n div 10))" by simp
    have "n < 10 * (n div 10 + 1)" by arith
    also have "\<dots> \<le> 10 * 10 ^ length (showNat (n div 10))" using ih by simp
    finally show ?thesis using False by (subst showNat.simps) simp
  qed
qed

lemma showNat_length_le: "n < 10 ^ m \<Longrightarrow> 0 < m \<Longrightarrow> length (showNat n) \<le> m"
proof (induction n arbitrary: m rule: showNat.induct)
  case (1 n)
  show ?case
  proof (cases "n < 10")
    case True
    then show ?thesis using "1.prems" by (subst showNat.simps) simp
  next
    case False
    then obtain m' where m: "m = Suc m'" using "1.prems" by (cases m) auto
    have "m' \<noteq> 0" using False "1.prems" m by (cases m') auto
    moreover have "n div 10 < 10 ^ m'" using "1.prems" m by (simp add: less_mult_imp_div_less mult.commute)
    ultimately have "length (showNat (n div 10)) \<le> m'" using "1.IH"[OF False, of m'] by simp
    then show ?thesis using False m by (subst showNat.simps) simp
  qed
qed

lemma bitLength_bounds: "n \<noteq> 0 \<Longrightarrow> 2 ^ (bitLength n - 1) \<le> n \<and> n < 2 ^ bitLength n"
proof (induction n rule: bitLength.induct)
  case (1 n)
  show ?case
  proof (cases "n div 2 = 0")
    case True
    then have "n = 1" using "1.prems" by arith
    then show ?thesis by (simp add: bitLength.simps)
  next
    case False
    with 1 have ih: "2 ^ (bitLength (n div 2) - 1) \<le> n div 2" "n div 2 < 2 ^ bitLength (n div 2)" by auto
    have pos: "bitLength (n div 2) \<noteq> 0" using False by (subst bitLength.simps) simp
    have bl: "bitLength n = Suc (bitLength (n div 2))" using "1.prems" by (subst bitLength.simps) simp
    have "2 ^ (bitLength n - 1) = 2 * 2 ^ (bitLength (n div 2) - 1)"
      using pos bl by (cases "bitLength (n div 2)") auto
    also have "\<dots> \<le> 2 * (n div 2)" using ih(1) by simp
    also have "\<dots> \<le> n" by arith
    finally have a: "2 ^ (bitLength n - 1) \<le> n" .
    have "n < 2 * (n div 2 + 1)" by arith
    also have "\<dots> \<le> 2 * 2 ^ bitLength (n div 2)" using ih(2) by simp
    finally have b: "n < 2 ^ bitLength n" using bl by simp
    from a b show ?thesis ..
  qed
qed

lemma bitLength_le_iff: "bitLength n \<le> k \<longleftrightarrow> n < 2 ^ k"
proof (cases "n = 0")
  case True
  then show ?thesis by (simp add: bitLength.simps)
next
  case False
  note b = bitLength_bounds[OF False]
  show ?thesis
  proof
    assume "bitLength n \<le> k"
    then have "(2::nat) ^ bitLength n \<le> 2 ^ k" by simp
    with b show "n < 2 ^ k" by linarith
  next
    assume lt: "n < 2 ^ k"
    show "bitLength n \<le> k"
    proof (rule ccontr)
      assume "\<not> bitLength n \<le> k"
      then have "k \<le> bitLength n - 1" by simp
      then have "(2::nat) ^ k \<le> 2 ^ (bitLength n - 1)" by simp
      with b lt show False by linarith
    qed
  qed
qed

lemma toDouble_exact: "n < 2 ^ 53 \<Longrightarrow> toDouble n = Num n"
  by (simp add: toDouble_def bitLength_le_iff)

lemma toDouble_large:
  assumes "\<not> n < 2 ^ 53" and "toDouble n = Num v"
  shows "2 ^ 53 \<le> v"
proof -
  define e where "e = bitLength n - 53"
  define q where "q = n div 2 ^ e"
  have bl: "\<not> bitLength n \<le> 53" using assms(1) by (simp add: bitLength_le_iff)
  then have e1: "1 \<le> e" and ble: "bitLength n - 1 = e + 52" by (simp_all add: e_def)
  have n0: "n \<noteq> 0" using assms(1) by auto
  have "2 ^ (e + 52) \<le> n" using bitLength_bounds[OF n0] ble by simp
  then have "2 ^ 52 * 2 ^ e \<le> n" by (simp add: power_add mult.commute)
  then have q52: "2 ^ 52 \<le> q" unfolding q_def by (simp add: less_eq_div_iff_mult_less_eq)
  have "v = q * 2 ^ e \<or> v = (q + 1) * 2 ^ e"
    using assms(2) bl by (auto simp: toDouble_def Let_def e_def q_def split: if_splits)
  then have v: "q * 2 ^ e \<le> v" by auto
  have "(2::nat) ^ 53 = 2 ^ 52 * 2 ^ 1" by simp
  also have "\<dots> \<le> q * 2 ^ e"
  proof (rule mult_le_mono)
    show "2 ^ 52 \<le> q" by (rule q52)
    show "(2::nat) ^ 1 \<le> 2 ^ e" using e1 by (intro power_increasing) simp_all
  qed
  finally show ?thesis using v by simp
qed

lemma toDouble_safe_inj: "toDouble m = Num v \<Longrightarrow> v < 2 ^ 53 \<Longrightarrow> m = v"
  using toDouble_large[of m v] toDouble_exact[of m] by (cases "m < 2 ^ 53") auto

section \<open>Rendering a Number\<close>

lemma shortestFrom_Suc_cases:
  assumes "shortestFrom x d (Suc j) = (s, k)"
  shows "(k = d - Suc j \<and> 1 \<le> k \<and> roundTrips x (s * 10 ^ Suc j)) \<or> shortestFrom x d j = (s, k)"
proof -
  define p :: nat where "p = 10 ^ Suc j"
  define lo where "lo = x div p"
  define okLo where "okLo = (d - Suc j \<ge> 1 \<and> roundTrips x (lo * p))"
  define okHi where "okHi = (d - Suc j \<ge> 1 \<and> lo + 1 < 10 ^ (d - Suc j) \<and> roundTrips x ((lo + 1) * p))"
  have eq: "shortestFrom x d (Suc j) =
      (if okLo \<and> okHi then
         (if absDiff x (lo * p) < absDiff x ((lo + 1) * p)
              \<or> (absDiff x (lo * p) = absDiff x ((lo + 1) * p) \<and> even lo)
          then (lo, d - Suc j) else (lo + 1, d - Suc j))
       else if okLo then (lo, d - Suc j)
       else if okHi then (lo + 1, d - Suc j)
       else shortestFrom x d j)"
    unfolding shortestFrom.simps Let_def p_def lo_def okLo_def okHi_def by (rule refl)
  have lo: "okLo \<Longrightarrow> d - Suc j \<ge> 1 \<and> roundTrips x (lo * 10 ^ Suc j)"
    and hi: "okHi \<Longrightarrow> d - Suc j \<ge> 1 \<and> roundTrips x ((lo + 1) * 10 ^ Suc j)"
    unfolding okLo_def okHi_def p_def by blast+
  consider (both) "okLo" "okHi" | (l) "okLo" "\<not> okHi" | (h) "\<not> okLo" "okHi" | (none) "\<not> okLo" "\<not> okHi"
    by blast
  then show ?thesis
  proof cases
    case both
    then have "(s, k) = (lo, d - Suc j) \<or> (s, k) = (lo + 1, d - Suc j)"
      using assms unfolding eq by (simp split: if_splits)
    then show ?thesis using lo[OF both(1)] hi[OF both(2)] by auto
  next
    case l
    then have "(s, k) = (lo, d - Suc j)" using assms unfolding eq by simp
    then show ?thesis using lo[OF l(1)] by auto
  next
    case h
    then have "(s, k) = (lo + 1, d - Suc j)" using assms unfolding eq by simp
    then show ?thesis using hi[OF h(2)] by auto
  next
    case none
    then have "shortestFrom x d j = (s, k)" using assms unfolding eq by simp
    then show ?thesis by simp
  qed
qed

lemma shortestFrom_roundTrips:
  assumes "roundTrips x x" and "j < d" and "shortestFrom x d j = (s, k)"
  shows "roundTrips x (s * 10 ^ (d - k)) \<and> 1 \<le> k \<and> k \<le> d"
  using assms(2,3)
proof (induction j)
  case 0
  then show ?case using assms(1) by simp
next
  case (Suc j)
  from shortestFrom_Suc_cases[OF Suc.prems(2)] show ?case
  proof
    assume a: "k = d - Suc j \<and> 1 \<le> k \<and> roundTrips x (s * 10 ^ Suc j)"
    then have "d - k = Suc j" using Suc.prems(1) by simp
    with a show ?thesis by simp
  next
    assume "shortestFrom x d j = (s, k)"
    with Suc show ?thesis by simp
  qed
qed

lemma shortestFrom_safe:
  assumes "v < 2 ^ 53" and "j < d" and "shortestFrom v d j = (s, k)"
  shows "s * 10 ^ (d - k) = v \<and> 1 \<le> k \<and> k \<le> d"
proof -
  have "roundTrips v v" using assms(1) by (simp add: roundTrips_def toDouble_exact)
  from shortestFrom_roundTrips[OF this assms(2,3)]
  show ?thesis using assms(1) by (simp add: roundTrips_def toDouble_safe_inj)
qed

lemma numberToString_safe:
  assumes "v < 2 ^ 53"
  shows "numberToString (Num v) = showNat v"
proof (cases "v = 0")
  case True
  then show ?thesis by (simp add: numberToString_def) code_simp
next
  case False
  define d where "d = length (showNat v)"
  have d0: "0 < d" by (simp add: d_def showNat_nonempty)
  have "v < 10 ^ 16" using assms by simp
  then have d16: "d \<le> 16" unfolding d_def by (rule showNat_length_le) simp
  have nrt: "\<not> roundTrips v (10 ^ d)"
  proof
    assume "roundTrips v (10 ^ d)"
    then have "10 ^ d = v" using assms by (simp add: roundTrips_def toDouble_safe_inj)
    then show False using showNat_length_bound[of v] by (simp add: d_def)
  qed
  obtain s k where sk: "shortestFrom v d (d - 1) = (s, k)" by (cases "shortestFrom v d (d - 1)")
  have "d - 1 < d" using d0 by simp
  from shortestFrom_safe[OF assms this sk]
  have v: "s * 10 ^ (d - k) = v" and k: "1 \<le> k" "k \<le> d" by simp_all
  have s0: "0 < s" using v False by (cases s) auto
  have "numberToString (Num v) = showNat s @ replicate (d - k) (CHR ''0'')"
    using False nrt sk d16 by (simp add: numberToString_def Let_def d_def[symmetric])
  also have "\<dots> = showNat (s * 10 ^ (d - k))" using s0 by (simp add: showNat_times_pow10)
  finally show ?thesis using v by simp
qed

lemma isDigit_not_dollar: "isDigit c \<Longrightarrow> c \<noteq> CHR ''$''"
  by (auto simp add: isDigit_def)

lemma showNat_no_dollar: "CHR ''$'' \<notin> set (showNat n)"
  using showNat_digits[of n] isDigit_not_dollar unfolding list_all_iff by blast

lemma rendered_no_dollar:
  "CHR ''$'' \<notin> set (if n \<le> 21 then showNat s @ replicate (n - k) (CHR ''0'')
        else if k = 1 then showNat s @ ''e+'' @ showNat (n - 1)
        else hd (showNat s) # CHR ''.'' # tl (showNat s) @ ''e+'' @ showNat (n - 1))"
proof -
  have hd: "CHR ''$'' \<noteq> hd (showNat s)"
    using showNat_no_dollar[of s] showNat_nonempty[of s] by (cases "showNat s") auto
  have tl: "CHR ''$'' \<notin> set (tl (showNat s))"
    using showNat_no_dollar[of s] showNat_nonempty[of s] by (cases "showNat s") auto
  show ?thesis using hd tl by (simp add: showNat_no_dollar)
qed

lemma numberToString_no_dollar: "CHR ''$'' \<notin> set (numberToString x)"
proof (cases x)
  case Infinity
  then show ?thesis by (simp add: numberToString_def)
next
  case (Num v)
  show ?thesis
  proof (cases "v = 0")
    case True
    then show ?thesis using Num by (simp add: numberToString_def)
  next
    case False
    obtain s k n where skn:
      "(if roundTrips v (10 ^ length (showNat v)) then (1, 1, length (showNat v) + 1)
        else (let (s, k) = shortestFrom v (length (showNat v)) (length (showNat v) - 1)
              in (s, k, length (showNat v)))) = (s, k, n)"
      using prod_cases3 by blast
    have "numberToString x = (if n \<le> 21 then showNat s @ replicate (n - k) (CHR ''0'')
        else if k = 1 then showNat s @ ''e+'' @ showNat (n - 1)
        else hd (showNat s) # CHR ''.'' # tl (showNat s) @ ''e+'' @ showNat (n - 1))"
      unfolding Num numberToString_def number.case Let_def[of "length (showNat v)"] skn
      using False by (simp only: if_False Let_def prod.case)
    then show ?thesis using rendered_no_dollar[of n s k] by simp
  qed
qed

section \<open>The shape of the generated statement\<close>

lemma truthy_guard: "truthy (if truthy d then d else None) = truthy d"
  by (simp add: truthy_def)

lemma truthy_None: "\<not> truthy None"
  by (simp add: truthy_def)

lemma dr_parameters_extractDateRange: "dr_parameters (extractDateRange q r) = Some []"
  by (simp add: extractDateRange_def parseDateRange_def Let_def)

lemma generateSQL_parameters:
  "parameters (generateSQLFromNaturalLanguage q dbSchema dept dr debug) =
     (if truthy (extractDepartment (toLowerCase q) dept)
      then [the (extractDepartment (toLowerCase q) dept)] else [])
     @ extractMetrics (toLowerCase q)"
  by (simp add: generateSQLFromNaturalLanguage_def Let_def dr_parameters_extractDateRange
      truthy_guard truthy_None split: prod.splits)

lemma generateSQL_sql:
  "sql (generateSQLFromNaturalLanguage q dbSchema dept dr debug) =
     ''SELECT ''
     @ (if agg_type (extractAggregation (toLowerCase q)) = ''none''
        then ''d.name as department, m.metric_name, m.metric_value, m.metric_date''
        else buildAggregationSelect (extractAggregation (toLowerCase q)))
     @ '' FROM metrics m INNER JOIN departments d ON m.department_id = d.id''
     @ (let conds =
              (if truthy (extractDepartment (toLowerCase q) dept) then [''d.code = $'' @ showNat 1] else [])
              @ (if dr_sql (extractDateRange (toLowerCase q) dr) \<noteq> []
                 then [dr_sql (extractDateRange (toLowerCase q) dr)] else [])
              @ (if extractMetrics (toLowerCase q) \<noteq> []
                 then [''m.metric_name IN (''
                        @ metricPlaceholders
                            (if truthy (extractDepartment (toLowerCase q) dept) then 1 else 0)
                            (extractMetrics (toLowerCase q))
                        @ '')'']
                 else [])
        in if conds = [] then [] else '' WHERE '' @ join '' AND '' conds)
     @ (if agg_type (extractAggregation (toLowerCase q)) \<noteq> ''none''
        then buildGroupBy (extractAggregation (toLowerCase q))
               (\<not> truthy (extractDepartment (toLowerCase q) dept))
        else [])
     @ buildOrderBy (extractComparison (toLowerCase q)) (extractAggregation (toLowerCase q))
     @ (if positive (extractLimit (toLowerCase q))
        then '' LIMIT '' @ numberToString (extractLimit (toLowerCase q)) else [])"
  by (simp add: generateSQLFromNaturalLanguage_def Let_def dr_parameters_extractDateRange
      truthy_guard truthy_None split: prod.splits)

section \<open>Placeholders of a text\<close>

lemma placeholders_skip: "CHR ''$'' \<notin> set a \<Longrightarrow> placeholders (a @ b) = placeholders b"
  by (induction a) auto

lemma placeholders_none: "CHR ''$'' \<notin> set a \<Longrightarrow> placeholders a = []"
  using placeholders_skip[of a "[]"] by simp

lemma takeWhile_noLeadDigit: "noLeadDigit b \<Longrightarrow> takeWhile isDigit b = []"
  by (cases b) simp_all

lemma takeWhile_showNat: "noLeadDigit b \<Longrightarrow> takeWhile isDigit (showNat n @ b) = showNat n"
proof -
  assume b: "noLeadDigit b"
  have "\<And>x. x \<in> set (showNat n) \<Longrightarrow> isDigit x"
    using showNat_digits[of n] by (simp add: list_all_iff)
  then have "takeWhile isDigit (showNat n @ b) = showNat n @ takeWhile isDigit b"
    by (rule takeWhile_append2)
  then show ?thesis using b by (simp add: takeWhile_noLeadDigit)
qed

lemma placeholders_dollar:
  assumes "noLeadDigit b"
  shows "placeholders (CHR ''$'' # showNat n @ b) = n # placeholders b"
  using assms
  by (simp add: takeWhile_showNat showNat_nonempty natOfDigits_showNat placeholders_skip
      showNat_no_dollar)

lemma placeholders_join:
  assumes "noLeadDigit b"
  shows "placeholders (join '', '' (map (\<lambda>n. ''$'' @ showNat n) ns) @ b) = ns @ placeholders b"
proof (induction ns)
  case Nil
  then show ?case by simp
next
  case (Cons n ns)
  show ?case
  proof (cases ns)
    case Nil
    then have "join '', '' (map (\<lambda>n. ''$'' @ showNat n) (n # ns)) @ b = CHR ''$'' # showNat n @ b"
      by simp
    then show ?thesis using placeholders_dollar[OF assms, of n] Nil by simp
  next
    case (Cons m ms)
    have "placeholders (join '', '' (map (\<lambda>n. ''$'' @ showNat n) (n # ns)) @ b) =
          placeholders (CHR ''$'' # showNat n @ ('', '' @ join '', '' (map (\<lambda>n. ''$'' @ showNat n) ns) @ b))"
      using Cons by simp
    also have "\<dots> = n # placeholders ('', '' @ join '', '' (map (\<lambda>n. ''$'' @ showNat n) ns) @ b)"
      by (rule placeholders_dollar) (simp add: isDigit_def)
    also have "\<dots> = n # placeholders (join '', '' (map (\<lambda>n. ''$'' @ showNat n) ns) @ b)"
      by simp
    finally show ?thesis using Cons.IH by simp
  qed
qed

lemma metricPlaceholders_map:
  "metricPlaceholders p ms = join '', '' (map (\<lambda>n. ''$'' @ showNat n) [p + 1 ..< p + 1 + length ms])"
proof -
  have "map (\<lambda>index. ''$'' @ showNat (p + index + 1)) [0 ..< length ms] =
        map (\<lambda>n. ''$'' @ showNat n) (map (\<lambda>i. i + (p + 1)) [0 ..< length ms])"
    by (simp add: add.commute add.left_commute)
  also have "map (\<lambda>i. i + (p + 1)) [0 ..< length ms] = [p + 1 ..< p + 1 + length ms]"
    using map_add_upt[of "p + 1" "length ms"] by (simp only: add.commute)
  finally show ?thesis by (simp add: metricPlaceholders_def)
qed

lemma placeholders_metricPlaceholders:
  assumes "noLeadDigit b"
  shows "placeholders (metricPlaceholders p ms @ b) = [p + 1 ..< p + 1 + length ms] @ placeholders b"
  unfolding metricPlaceholders_map by (rule placeholders_join[OF assms])

lemma dr_sql_no_dollar: "CHR ''$'' \<notin> set (dr_sql (extractDateRange q r))"
  by (simp add: extractDateRange_def parseDateRange_def Let_def)

lemma agg_function_no_dollar: "CHR ''$'' \<notin> set (agg_function (extractAggregation q))"
  by (simp add: extractAggregation_def)

lemma buildAggregationSelect_no_dollar:
  "CHR ''$'' \<notin> set (buildAggregationSelect (extractAggregation q))"
  using agg_function_no_dollar[of q] by (simp add: buildAggregationSelect_def)

lemma buildGroupBy_no_dollar: "CHR ''$'' \<notin> set (buildGroupBy a f)"
  by (simp add: buildGroupBy_def)

lemma buildGroupBy_lead: "noLeadDigit (buildGroupBy a f @ b)"
  by (simp add: buildGroupBy_def isDigit_def)

lemma cmp_direction_no_dollar: "CHR ''$'' \<notin> set (cmp_direction (extractComparison q))"
  by (simp add: extractComparison_def)

lemma buildOrderBy_no_dollar:
  "CHR ''$'' \<notin> set (buildOrderBy (extractComparison q) a)"
  using cmp_direction_no_dollar[of q] by (simp add: buildOrderBy_def Let_def)

lemma buildOrderBy_lead: "noLeadDigit (buildOrderBy c a @ b)"
  by (simp add: buildOrderBy_def Let_def isDigit_def)

lemma generateSQL_department_filter:
  "department_filter (generateSQLFromNaturalLanguage q dbSchema dept dr debug) =
     (if truthy (extractDepartment (toLowerCase q) dept)
      then extractDepartment (toLowerCase q) dept else None)"
  by (simp add: generateSQLFromNaturalLanguage_def Let_def split: prod.splits)

lemma truthy_Some_the: "truthy d \<Longrightarrow> d = Some (the d)"
  by (cases d) (simp_all add: truthy_def)

lemma where_placeholders:
  assumes t: "CHR ''$'' \<notin> set t" "noLeadDigit t"
    and r: "CHR ''$'' \<notin> set rsql"
  shows "placeholders
     ((let conds = (if hasDept then [''d.code = $'' @ showNat 1] else [])
              @ (if rsql \<noteq> [] then [rsql] else [])
              @ (if ms \<noteq> [] then [''m.metric_name IN (''
                        @ metricPlaceholders (if hasDept then 1 else 0) ms @ '')''] else [])
        in if conds = [] then [] else '' WHERE '' @ join '' AND '' conds) @ t)
     = [1 ..< Suc (length ((if hasDept then [d] else []) @ ms))]"
proof -
  have pt: "placeholders t = []" using t(1) by (rule placeholders_none)
  have lead1: "\<And>x. noLeadDigit ('' AND '' @ x)" and lead2: "\<And>x. noLeadDigit ('')'' @ x)"
    by (simp_all add: isDigit_def)
  have one: "\<And>b. noLeadDigit b \<Longrightarrow>
      placeholders ('' WHERE d.code = $'' @ showNat 1 @ b) = 1 # placeholders b"
    using placeholders_dollar[of _ 1] by simp
  have inl: "\<And>p b. placeholders (''m.metric_name IN ('' @ metricPlaceholders p ms @ '')'' @ b)
      = [p + 1 ..< p + 1 + length ms] @ placeholders b"
    using placeholders_metricPlaceholders[OF lead2] by simp
  have rs: "\<And>b. placeholders (rsql @ b) = placeholders b"
    using r by (rule placeholders_skip)
  have upt1: "1 # [Suc 1 ..< Suc 1 + length ms] = [1 ..< Suc (Suc (length ms))]"
  proof -
    have "[1 ..< Suc (Suc (length ms))] = 1 # [Suc 1 ..< Suc (Suc (length ms))]"
      by (rule upt_conv_Cons) simp
    then show ?thesis by (simp only: add_Suc plus_1_eq_Suc)
  qed
  show ?thesis
  proof (cases hasDept)
    case True
    note d = True
    show ?thesis
    proof (cases "rsql = []")
      case True
      note e = True
      show ?thesis
      proof (cases "ms = []")
        case True
        have "placeholders ('' WHERE d.code = $'' @ showNat 1 @ t) = 1 # placeholders t"
          by (rule one[OF t(2)])
        then show ?thesis using d e True pt by (simp add: Let_def)
      next
        case False
        have "placeholders ('' WHERE d.code = $'' @ showNat 1 @ ('' AND '' @
                 (''m.metric_name IN ('' @ metricPlaceholders 1 ms @ '')'' @ t)))
              = 1 # placeholders ('' AND '' @ (''m.metric_name IN ('' @ metricPlaceholders 1 ms @ '')'' @ t))"
          by (rule one[OF lead1])
        also have "\<dots> = 1 # placeholders (''m.metric_name IN ('' @ metricPlaceholders 1 ms @ '')'' @ t)"
          by simp
        also have "\<dots> = 1 # [1 + 1 ..< 1 + 1 + length ms] @ placeholders t"
          by (simp only: inl)
        finally show ?thesis using d e False pt upt1 by (simp add: Let_def)
      qed
    next
      case False
      note e = False
      show ?thesis
      proof (cases "ms = []")
        case True
        have "placeholders ('' WHERE d.code = $'' @ showNat 1 @ ('' AND '' @ (rsql @ t)))
              = 1 # placeholders ('' AND '' @ (rsql @ t))"
          by (rule one[OF lead1])
        also have "\<dots> = 1 # placeholders (rsql @ t)" by simp
        finally show ?thesis using d e True pt rs by (simp add: Let_def)
      next
        case False
        have "placeholders ('' WHERE d.code = $'' @ showNat 1 @ ('' AND '' @ (rsql @ ('' AND '' @
                 (''m.metric_name IN ('' @ metricPlaceholders 1 ms @ '')'' @ t)))))
              = 1 # placeholders ('' AND '' @ (rsql @ ('' AND '' @
                 (''m.metric_name IN ('' @ metricPlaceholders 1 ms @ '')'' @ t))))"
          by (rule one[OF lead1])
        also have "\<dots> = 1 # placeholders (rsql @ ('' AND '' @
                 (''m.metric_name IN ('' @ metricPlaceholders 1 ms @ '')'' @ t)))"
          by simp
        also have "\<dots> = 1 # placeholders ('' AND '' @
                 (''m.metric_name IN ('' @ metricPlaceholders 1 ms @ '')'' @ t))"
          by (simp only: rs)
        also have "\<dots> = 1 # placeholders (''m.metric_name IN ('' @ metricPlaceholders 1 ms @ '')'' @ t)"
          by simp
        also have "\<dots> = 1 # [1 + 1 ..< 1 + 1 + length ms] @ placeholders t"
          by (simp only: inl)
        finally show ?thesis using d e False pt upt1 by (simp add: Let_def)
      qed
    qed
  next
    case False
    note d = False
    show ?thesis
    proof (cases "rsql = []")
      case True
      note e = True
      show ?thesis
      proof (cases "ms = []")
        case True
        then show ?thesis using d e pt by (simp add: Let_def)
      next
        case False
        have "placeholders ('' WHERE '' @ (''m.metric_name IN ('' @ metricPlaceholders 0 ms @ '')'' @ t))
              = placeholders (''m.metric_name IN ('' @ metricPlaceholders 0 ms @ '')'' @ t)"
          by simp
        also have "\<dots> = [0 + 1 ..< 0 + 1 + length ms] @ placeholders t"
          by (simp only: inl)
        finally show ?thesis using d e False pt by (simp add: Let_def)
      qed
    next
      case False
      note e = False
      show ?thesis
      proof (cases "ms = []")
        case True
        have "placeholders ('' WHERE '' @ (rsql @ t)) = placeholders (rsql @ t)" by simp
        then show ?thesis using d e True pt rs by (simp add: Let_def)
      next
        case False
        have "placeholders ('' WHERE '' @ (rsql @ ('' AND '' @
                 (''m.metric_name IN ('' @ metricPlaceholders 0 ms @ '')'' @ t))))
              = placeholders (rsql @ ('' AND '' @
                 (''m.metric_name IN ('' @ metricPlaceholders 0 ms @ '')'' @ t)))"
          by simp
        also have "\<dots> = placeholders ('' AND '' @
                 (''m.metric_name IN ('' @ metricPlaceholders 0 ms @ '')'' @ t))"
          by (simp only: rs)
        also have "\<dots> = placeholders (''m.metric_name IN ('' @ metricPlaceholders 0 ms @ '')'' @ t)"
          by simp
        also have "\<dots> = [0 + 1 ..< 0 + 1 + length ms] @ placeholders t"
          by (simp only: inl)
        finally show ?thesis using d e False pt by (simp add: Let_def)
      qed
    qed
  qed
qed

text \<open>The LIMIT clause holds no placeholder.\<close>

lemma limit_clause_no_dollar:
  "CHR ''$'' \<notin> set (if positive l then '' LIMIT '' @ numberToString l else [])"
  by (simp add: numberToString_no_dollar)

section \<open>Placeholders and parameters\<close>

text \<open>
  Claim C1. In every generated query the placeholders of the SQL text are
  \<open>$1, $2, ..., $n\<close> in this order, where \<open>n\<close> is the number of parameters, so there
  are exactly as many placeholders as parameters. They all stand in the WHERE clause,
  whose conditions are, in this order: \<open>d.code = $1\<close> when there is a department
  filter, the date predicate when there is one (it holds no placeholder and binds no
  parameter), and the metric list \<open>m.metric_name IN ($k+1, ..., $k+m)\<close> when metrics
  were found, \<open>k\<close> being the number of parameters bound before it. The parameters are
  the department, then the parameters of the date range, then the metric names: the
  parameter of \<open>$1\<close> in the department condition is the department, and the parameter
  of the \<open>i\<close>-th placeholder of the metric list is the \<open>i\<close>-th metric name.
\<close>

theorem placeholder_parameter_parity:
  "let g = generateSQLFromNaturalLanguage q dbSchema dept dr debug;
       r = extractDateRange (toLowerCase q) dr;
       ms = extractMetrics (toLowerCase q);
       deptParams = (case department_filter g of None \<Rightarrow> [] | Some d \<Rightarrow> [d]);
       dateParams = (if dr_sql r = [] then []
                     else (case dr_parameters r of None \<Rightarrow> [] | Some ps \<Rightarrow> ps));
       k = length (deptParams @ dateParams);
       deptClause = (case department_filter g of None \<Rightarrow> [] | Some d \<Rightarrow> [''d.code = $1'']);
       dateClause = (if dr_sql r = [] then [] else [dr_sql r]);
       metricClause = (if ms = [] then []
                       else [''m.metric_name IN (''
                             @ join '', '' (map (\<lambda>i. ''$'' @ showNat (k + i + 1)) [0 ..< length ms])
                             @ '')'']);
       conds = deptClause @ dateClause @ metricClause
   in placeholders (sql g) = [1 ..< Suc (length (parameters g))] \<and>
      length (placeholders (sql g)) = length (parameters g) \<and>
      parameters g = deptParams @ dateParams @ ms \<and>
      (\<exists>select tail.
         sql g = select @ (if conds = [] then [] else '' WHERE '' @ join '' AND '' conds) @ tail \<and>
         CHR ''$'' \<notin> set select \<and> CHR ''$'' \<notin> set tail) \<and>
      CHR ''$'' \<notin> set (dr_sql r) \<and> dateParams = [] \<and>
      take k (parameters g) = deptParams \<and>
      map (\<lambda>i. parameters g ! (k + i)) [0 ..< length ms] = ms"
proof -
  define lower where "lower = toLowerCase q"
  define g where "g = generateSQLFromNaturalLanguage q dbSchema dept dr debug"
  define r where "r = extractDateRange lower dr"
  define ms where "ms = extractMetrics lower"
  define deptParams where
    "deptParams = (case department_filter g of None \<Rightarrow> [] | Some d \<Rightarrow> [d])"
  define dateParams where
    "dateParams = (if dr_sql r = [] then []
                     else (case dr_parameters r of None \<Rightarrow> [] | Some ps \<Rightarrow> ps))"
  define k where "k = length (deptParams @ dateParams)"
  define deptClause where
    "deptClause = (case department_filter g of None \<Rightarrow> [] | Some d \<Rightarrow> [''d.code = $1''])"
  define dateClause where "dateClause = (if dr_sql r = [] then [] else [dr_sql r])"
  define metricClause where
    "metricClause = (if ms = [] then []
                       else [''m.metric_name IN (''
                             @ join '', '' (map (\<lambda>i. ''$'' @ showNat (k + i + 1)) [0 ..< length ms])
                             @ '')''])"
  define conds where "conds = deptClause @ dateClause @ metricClause"
  define D where "D = extractDepartment lower dept"
  define A where "A = ''SELECT ''
     @ (if agg_type (extractAggregation lower) = ''none''
        then ''d.name as department, m.metric_name, m.metric_value, m.metric_date''
        else buildAggregationSelect (extractAggregation lower))
     @ '' FROM metrics m INNER JOIN departments d ON m.department_id = d.id''"
  define T where "T = (if agg_type (extractAggregation lower) \<noteq> ''none''
        then buildGroupBy (extractAggregation lower) (\<not> truthy D) else [])
     @ buildOrderBy (extractComparison lower) (extractAggregation lower)
     @ (if positive (extractLimit lower)
        then '' LIMIT '' @ numberToString (extractLimit lower) else [])"
  define W where "W =
     (let conds = (if truthy D then [''d.code = $'' @ showNat 1] else [])
              @ (if dr_sql r \<noteq> [] then [dr_sql r] else [])
              @ (if ms \<noteq> [] then [''m.metric_name IN (''
                        @ metricPlaceholders (if truthy D then 1 else 0) ms @ '')''] else [])
        in if conds = [] then [] else '' WHERE '' @ join '' AND '' conds)"
  have sql: "sql g = A @ W @ T"
    unfolding g_def generateSQL_sql A_def W_def T_def D_def r_def ms_def lower_def
    by (simp only: append_assoc)
  have params: "parameters g = (if truthy D then [the D] else []) @ ms"
    unfolding g_def generateSQL_parameters D_def ms_def lower_def by (rule refl)
  have dept: "department_filter g = (if truthy D then D else None)"
    unfolding g_def generateSQL_department_filter D_def lower_def by (rule refl)
  have A: "CHR ''$'' \<notin> set A"
    unfolding A_def using buildAggregationSelect_no_dollar[of lower] by simp
  have T1: "CHR ''$'' \<notin> set T"
    unfolding T_def
    using buildGroupBy_no_dollar buildOrderBy_no_dollar[of lower] numberToString_no_dollar
    by simp
  have T2: "noLeadDigit T"
    unfolding T_def using buildGroupBy_lead buildOrderBy_lead by simp
  have rs: "CHR ''$'' \<notin> set (dr_sql r)" unfolding r_def by (rule dr_sql_no_dollar)
  have "placeholders (sql g) = placeholders (W @ T)"
    unfolding sql using A by (rule placeholders_skip)
  also have "\<dots> = [1 ..< Suc (length ((if truthy D then [the D] else []) @ ms))]"
    unfolding W_def by (rule where_placeholders[OF T1 T2 rs])
  finally have ph: "placeholders (sql g) = [1 ..< Suc (length (parameters g))]"
    unfolding params .
  have len: "length (placeholders (sql g)) = length (parameters g)"
    unfolding ph by (simp del: upt_Suc)
  have dtp: "dateParams = []"
    by (simp add: dateParams_def r_def dr_parameters_extractDateRange)
  have dp: "deptParams = (if truthy D then [the D] else [])"
    by (cases D) (simp_all add: deptParams_def dept truthy_None)
  have kk: "k = (if truthy D then 1 else 0)"
    by (simp add: k_def dtp dp)
  have order: "parameters g = deptParams @ dateParams @ ms"
    by (simp add: params dp dtp)
  have tk: "take k (parameters g) = deptParams"
    by (simp add: order k_def dtp)
  have nth: "map (\<lambda>i. parameters g ! (k + i)) [0 ..< length ms] = ms"
  proof -
    have "map (\<lambda>i. parameters g ! (k + i)) [0 ..< length ms] = map (\<lambda>i. ms ! i) [0 ..< length ms]"
      by (simp add: order k_def dtp nth_append)
    then show ?thesis by (simp add: map_nth)
  qed
  have one: "showNat (Suc 0) = ''1''" by code_simp
  have dc: "(if truthy D then [''d.code = $'' @ showNat 1] else []) = deptClause"
    by (cases D) (simp_all add: deptClause_def dept truthy_None one)
  have dtc: "(if dr_sql r \<noteq> [] then [dr_sql r] else []) = dateClause"
    by (simp add: dateClause_def)
  have mc: "(if ms \<noteq> [] then [''m.metric_name IN (''
                        @ metricPlaceholders (if truthy D then 1 else 0) ms @ '')''] else [])
            = metricClause"
    unfolding metricClause_def metricPlaceholders_def kk[symmetric] by simp
  have Weq: "W = (if conds = [] then [] else '' WHERE '' @ join '' AND '' conds)"
    unfolding W_def dc dtc mc conds_def Let_def by (rule refl)
  have shape: "\<exists>select tail.
         sql g = select @ (if conds = [] then [] else '' WHERE '' @ join '' AND '' conds) @ tail \<and>
         CHR ''$'' \<notin> set select \<and> CHR ''$'' \<notin> set tail"
    using sql[unfolded Weq] A T1 by blast
  have all: "placeholders (sql g) = [1 ..< Suc (length (parameters g))] \<and>
      length (placeholders (sql g)) = length (parameters g) \<and>
      parameters g = deptParams @ dateParams @ ms \<and>
      (\<exists>select tail.
         sql g = select @ (if conds = [] then [] else '' WHERE '' @ join '' AND '' conds) @ tail \<and>
         CHR ''$'' \<notin> set select \<and> CHR ''$'' \<notin> set tail) \<and>
      CHR ''$'' \<notin> set (dr_sql r) \<and> dateParams = [] \<and>
      take k (parameters g) = deptParams \<and>
      map (\<lambda>i. parameters g ! (k + i)) [0 ..< length ms] = ms"
    by (intro conjI ph len order shape rs dtp tk nth)
  from all show ?thesis
    unfolding Let_def conds_def metricClause_def dateClause_def deptClause_def k_def
      dateParams_def deptParams_def ms_def r_def g_def lower_def .
qed

section \<open>Grouping of aggregated queries\<close>

lemma generateSQL_aggregation_type:
  "aggregation_type (generateSQLFromNaturalLanguage q dbSchema dept dr debug) =
     agg_type (extractAggregation (toLowerCase q))"
  by (simp add: generateSQLFromNaturalLanguage_def Let_def split: prod.splits)

text \<open>
  Claim C4. When the query aggregates and has a department filter (explicit or inferred),
  the statement selects \<open>d.name as department\<close>, filters on the department code, and
  groups by \<open>m.metric_name\<close> alone: the GROUP BY clause is
  \<open>GROUP BY m.metric_name\<close>, followed at once by the ORDER BY clause, so the selected
  department column is not part of the grouping key.
\<close>

theorem aggregate_with_department_groups_by_metric_only:
  assumes "aggregation_type (generateSQLFromNaturalLanguage q dbSchema dept dr debug) \<noteq> ''none''"
    and "department_filter (generateSQLFromNaturalLanguage q dbSchema dept dr debug) \<noteq> None"
  shows "\<exists>aggregate filters.
     sql (generateSQLFromNaturalLanguage q dbSchema dept dr debug) =
       ''SELECT d.name as department, m.metric_name, '' @ aggregate
       @ '' FROM metrics m INNER JOIN departments d ON m.department_id = d.id''
       @ '' WHERE d.code = $1'' @ filters
       @ '' GROUP BY m.metric_name''
       @ buildOrderBy (extractComparison (toLowerCase q)) (extractAggregation (toLowerCase q))
       @ (if positive (extractLimit (toLowerCase q))
          then '' LIMIT '' @ numberToString (extractLimit (toLowerCase q)) else []) \<and>
     buildGroupBy (extractAggregation (toLowerCase q)) False = '' GROUP BY m.metric_name''"
proof -
  define lower where "lower = toLowerCase q"
  have agg: "agg_type (extractAggregation lower) \<noteq> ''none''"
    using assms(1) by (simp add: generateSQL_aggregation_type lower_def)
  have dept: "truthy (extractDepartment lower dept)"
    using assms(2) by (simp add: generateSQL_department_filter lower_def split: if_splits)
  define aggregate where "aggregate =
     (if agg_type (extractAggregation lower) = ''growth''
      then ''AVG(m.monthly_change_percent) as growth_rate''
      else agg_function (extractAggregation lower) @ ''(m.metric_value) as aggregated_value'')"
  have sel:
    "buildAggregationSelect (extractAggregation lower) = ''d.name as department, m.metric_name, '' @ aggregate"
    by (simp add: buildAggregationSelect_def aggregate_def)
  define rest where "rest =
       (if dr_sql (extractDateRange lower dr) \<noteq> [] then [dr_sql (extractDateRange lower dr)] else [])
       @ (if extractMetrics lower \<noteq> []
          then [''m.metric_name IN ('' @ metricPlaceholders 1 (extractMetrics lower) @ '')''] else [])"
  obtain filters where wh:
    "'' WHERE '' @ join '' AND '' ((''d.code = $'' @ showNat 1) # rest) = '' WHERE d.code = $1'' @ filters"
  proof (cases rest)
    case Nil
    have "showNat 1 = ''1''" by code_simp
    then show ?thesis using Nil that[of "[]"] by simp
  next
    case (Cons c cs)
    have "showNat 1 = ''1''" by code_simp
    then show ?thesis using Cons that[of "'' AND '' @ join '' AND '' (c # cs)"] by simp
  qed
  define whereClause where "whereClause =
     (let conds =
              (if truthy (extractDepartment lower dept) then [''d.code = $'' @ showNat 1] else [])
              @ (if dr_sql (extractDateRange lower dr) \<noteq> []
                 then [dr_sql (extractDateRange lower dr)] else [])
              @ (if extractMetrics lower \<noteq> []
                 then [''m.metric_name IN (''
                        @ metricPlaceholders
                            (if truthy (extractDepartment lower dept) then 1 else 0)
                            (extractMetrics lower)
                        @ '')'']
                 else [])
        in if conds = [] then [] else '' WHERE '' @ join '' AND '' conds)"
  have W: "whereClause = '' WHERE '' @ join '' AND '' ((''d.code = $'' @ showNat 1) # rest)"
    using dept unfolding whereClause_def rest_def Let_def by simp
  have main: "sql (generateSQLFromNaturalLanguage q dbSchema dept dr debug) =
       ''SELECT '' @ buildAggregationSelect (extractAggregation lower)
       @ '' FROM metrics m INNER JOIN departments d ON m.department_id = d.id''
       @ whereClause
       @ buildGroupBy (extractAggregation lower) False
       @ buildOrderBy (extractComparison lower) (extractAggregation lower)
       @ (if positive (extractLimit lower)
          then '' LIMIT '' @ numberToString (extractLimit lower) else [])"
    unfolding generateSQL_sql lower_def[symmetric] whereClause_def[symmetric]
    using agg dept by simp
  have "sql (generateSQLFromNaturalLanguage q dbSchema dept dr debug) =
       ''SELECT d.name as department, m.metric_name, '' @ aggregate
       @ '' FROM metrics m INNER JOIN departments d ON m.department_id = d.id''
       @ '' WHERE d.code = $1'' @ filters
       @ '' GROUP BY m.metric_name''
       @ buildOrderBy (extractComparison lower) (extractAggregation lower)
       @ (if positive (extractLimit lower)
          then '' LIMIT '' @ numberToString (extractLimit lower) else [])"
    unfolding main W wh sel by (simp add: buildGroupBy_def)
  moreover have "buildGroupBy (extractAggregation lower) False = '' GROUP BY m.metric_name''"
    by (simp add: buildGroupBy_def)
  ultimately show ?thesis unfolding lower_def by blast
qed

theorem aggregate_with_department_groups_by_metric_only_witness:
  "aggregation_type (generateSQLFromNaturalLanguage ''total pipeline this year'' sampleSchema None None False) \<noteq> ''none'' \<and>
   department_filter (generateSQLFromNaturalLanguage ''total pipeline this year'' sampleSchema None None False) \<noteq> None \<and>
   (\<exists>aggregate filters.
     sql (generateSQLFromNaturalLanguage ''total pipeline this year'' sampleSchema None None False) =
       ''SELECT d.name as department, m.metric_name, '' @ aggregate
       @ '' FROM metrics m INNER JOIN departments d ON m.department_id = d.id''
       @ '' WHERE d.code = $1'' @ filters
       @ '' GROUP BY m.metric_name''
       @ buildOrderBy (extractComparison (toLowerCase ''total pipeline this year''))
           (extractAggregation (toLowerCase ''total pipeline this year''))
       @ (if positive (extractLimit (toLowerCase ''total pipeline this year''))
          then '' LIMIT '' @ numberToString (extractLimit (toLowerCase ''total pipeline this year''))
          else []))"
proof -
  have 1: "aggregation_type (generateSQLFromNaturalLanguage ''total pipeline this year'' sampleSchema None None False) \<noteq> ''none''"
    by code_simp
  have 2: "department_filter (generateSQLFromNaturalLanguage ''total pipeline this year'' sampleSchema None None False) \<noteq> None"
    by code_simp
  from aggregate_with_department_groups_by_metric_only[OF 1 2] 1 2
  show ?thesis by blast
qed

section \<open>The searches compute the matches\<close>

lemma includesStr_iff: "includesStr q k \<longleftrightarrow> (\<exists>pre post. q = pre @ k @ post)"
proof (induction q)
  case Nil
  then show ?case by simp
next
  case (Cons c cs)
  show ?case
  proof
    assume "includesStr (c # cs) k"
    then consider "prefix k (c # cs)" | "includesStr cs k" by auto
    then show "\<exists>pre post. c # cs = pre @ k @ post"
    proof cases
      case 1
      then obtain post where "c # cs = k @ post" by (auto simp: prefix_def)
      then have "c # cs = [] @ k @ post" by simp
      then show ?thesis by blast
    next
      case 2
      with Cons obtain pre post where "cs = pre @ k @ post" by blast
      then have "c # cs = (c # pre) @ k @ post" by simp
      then show ?thesis by blast
    qed
  next
    assume "\<exists>pre post. c # cs = pre @ k @ post"
    then obtain pre post where e: "c # cs = pre @ k @ post" by blast
    show "includesStr (c # cs) k"
    proof (cases pre)
      case Nil
      then have "prefix k (c # cs)" using e by (simp add: prefix_def)
      then show ?thesis by simp
    next
      case (Cons a pre')
      then have "cs = pre' @ k @ post" using e by simp
      then have "includesStr cs k" using Cons.IH by blast
      then show ?thesis by simp
    qed
  qed
qed

lemma takeWhile_digits_app:
  assumes "list_all isDigit ds" and "noLeadDigit post"
  shows "takeWhile isDigit (ds @ post) = ds" and "dropWhile isDigit (ds @ post) = post"
proof -
  have all: "\<And>x. x \<in> set ds \<Longrightarrow> isDigit x" using assms(1) by (simp add: list_all_iff)
  have "takeWhile isDigit post = []" using assms(2) by (rule takeWhile_noLeadDigit)
  moreover have "dropWhile isDigit post = post" using assms(2) by (cases post) simp_all
  ultimately show "takeWhile isDigit (ds @ post) = ds" and "dropWhile isDigit (ds @ post) = post"
    using all by (simp_all add: takeWhile_append2 dropWhile_append2)
qed

lemma noLeadDigit_dropWhile: "noLeadDigit (dropWhile isDigit s)"
  by (induction s) simp_all

lemma list_all_takeWhile: "list_all isDigit (takeWhile isDigit s)"
  by (induction s) simp_all

lemma digitRun_iff:
  "digitRun s = Some ds \<longleftrightarrow>
     ds \<noteq> [] \<and> list_all isDigit ds \<and> (\<exists>post. s = ds @ post \<and> noLeadDigit post)"
proof
  assume "digitRun s = Some ds"
  then have ds: "ds = takeWhile isDigit s" "ds \<noteq> []"
    by (auto simp add: digitRun_def Let_def split: if_splits)
  have "s = ds @ dropWhile isDigit s" using ds(1) by simp
  then show "ds \<noteq> [] \<and> list_all isDigit ds \<and> (\<exists>post. s = ds @ post \<and> noLeadDigit post)"
    using ds noLeadDigit_dropWhile[of s] list_all_takeWhile[of s] by blast
next
  assume "ds \<noteq> [] \<and> list_all isDigit ds \<and> (\<exists>post. s = ds @ post \<and> noLeadDigit post)"
  then obtain post where "ds \<noteq> []" "list_all isDigit ds" "s = ds @ post" "noLeadDigit post"
    by blast
  then show "digitRun s = Some ds"
    by (simp add: digitRun_def Let_def takeWhile_digits_app)
qed

lemma wordThenDigits_iff: "wordThenDigits w s = Some ds \<longleftrightarrow> matchesWordDigits w s ds"
proof (cases "prefix w s")
  case True
  then obtain rest where s: "s = w @ rest" by (auto simp: prefix_def)
  then show ?thesis
    by (simp add: wordThenDigits_def matchesWordDigits_def digitRun_iff)
next
  case False
  then have "\<And>post. s \<noteq> w @ ds @ post" by (auto simp: prefix_def)
  then show ?thesis using False by (simp add: wordThenDigits_def matchesWordDigits_def)
qed

lemma digitsThenWord_iff: "digitsThenWord s = Some ds \<longleftrightarrow> matchesDigitsWord s ds"
proof
  assume a: "digitsThenWord s = Some ds"
  define rest where "rest = dropWhile isDigit s"
  from a have ds: "ds = takeWhile isDigit s" "ds \<noteq> []"
    and w: "prefix '' top'' rest \<or> prefix '' best'' rest \<or> prefix '' worst'' rest"
    by (auto simp add: digitsThenWord_def Let_def rest_def split: if_splits)
  have s: "s = ds @ rest" using ds(1) by (simp add: rest_def)
  from w obtain post where "rest = '' top'' @ post \<or> rest = '' best'' @ post \<or> rest = '' worst'' @ post"
    unfolding prefix_def by blast
  with s have e: "s = ds @ '' top'' @ post \<or> s = ds @ '' best'' @ post \<or> s = ds @ '' worst'' @ post"
    by auto
  have la: "list_all isDigit ds" unfolding ds(1) by (rule list_all_takeWhile)
  show "matchesDigitsWord s ds"
    unfolding matchesDigitsWord_def
  proof (intro conjI)
    show "ds \<noteq> []" by (rule ds(2))
    show "list_all isDigit ds" by (rule la)
    show "\<exists>post. s = ds @ '' top'' @ post \<or> s = ds @ '' best'' @ post \<or> s = ds @ '' worst'' @ post"
      using e by (rule exI)
  qed
next
  assume "matchesDigitsWord s ds"
  then obtain post where ds: "ds \<noteq> []" "list_all isDigit ds"
    and s: "s = ds @ '' top'' @ post \<or> s = ds @ '' best'' @ post \<or> s = ds @ '' worst'' @ post"
    unfolding matchesDigitsWord_def by blast
  have nl: "noLeadDigit ('' top'' @ post)" "noLeadDigit ('' best'' @ post)" "noLeadDigit ('' worst'' @ post)"
    by (simp_all add: isDigit_def)
  from s show "digitsThenWord s = Some ds"
  proof (elim disjE)
    assume "s = ds @ '' top'' @ post"
    then show ?thesis
      using ds takeWhile_digits_app[OF ds(2) nl(1)] by (simp add: digitsThenWord_def Let_def)
  next
    assume "s = ds @ '' best'' @ post"
    then show ?thesis
      using ds takeWhile_digits_app[OF ds(2) nl(2)] by (simp add: digitsThenWord_def Let_def)
  next
    assume "s = ds @ '' worst'' @ post"
    then show ?thesis
      using ds takeWhile_digits_app[OF ds(2) nl(3)] by (simp add: digitsThenWord_def Let_def)
  qed
qed

lemma regexSearch_None_iff:
  "regexSearch m q = None \<longleftrightarrow> noMatch (\<lambda>s ds. m s = Some ds) q"
proof (induction q)
  case Nil
  then show ?case by (auto simp add: noMatch_def)
next
  case (Cons c cs)
  show ?case
  proof (cases "m (c # cs)")
    case (Some r)
    have "\<not> noMatch (\<lambda>s ds. m s = Some ds) (c # cs)"
      unfolding noMatch_def using Some by (metis append_Nil)
    then show ?thesis using Some by simp
  next
    case None
    have "noMatch (\<lambda>s ds. m s = Some ds) (c # cs) \<longleftrightarrow> noMatch (\<lambda>s ds. m s = Some ds) cs"
    proof
      assume a: "noMatch (\<lambda>s ds. m s = Some ds) (c # cs)"
      show "noMatch (\<lambda>s ds. m s = Some ds) cs"
        unfolding noMatch_def
      proof (intro allI impI)
        fix pre s ds
        assume "cs = pre @ s"
        then have "c # cs = (c # pre) @ s" by simp
        with a show "m s \<noteq> Some ds" unfolding noMatch_def by blast
      qed
    next
      assume a: "noMatch (\<lambda>s ds. m s = Some ds) cs"
      show "noMatch (\<lambda>s ds. m s = Some ds) (c # cs)"
        unfolding noMatch_def
      proof (intro allI impI)
        fix pre s ds
        assume e: "c # cs = pre @ s"
        show "m s \<noteq> Some ds"
        proof (cases pre)
          case Nil
          then show ?thesis using e None by simp
        next
          case (Cons a pre')
          then have "cs = pre' @ s" using e by simp
          with a show ?thesis unfolding noMatch_def by blast
        qed
      qed
    qed
    then show ?thesis using None Cons.IH by simp
  qed
qed

lemma regexSearch_Some_iff:
  "regexSearch m q = Some ds \<longleftrightarrow> firstMatch (\<lambda>s ds. m s = Some ds) q ds"
proof (induction q)
  case Nil
  then show ?case by (auto simp add: firstMatch_def)
next
  case (Cons c cs)
  show ?case
  proof (cases "m (c # cs)")
    case (Some r)
    have "firstMatch (\<lambda>s ds. m s = Some ds) (c # cs) ds \<longleftrightarrow> ds = r"
    proof
      assume "firstMatch (\<lambda>s ds. m s = Some ds) (c # cs) ds"
      then obtain pre s where e: "c # cs = pre @ s" and ms: "m s = Some ds"
        and first: "\<forall>pre' s' ds'. c # cs = pre' @ s' \<and> length pre' < length pre \<longrightarrow> m s' \<noteq> Some ds'"
        unfolding firstMatch_def by blast
      have "pre = []"
      proof (rule ccontr)
        assume "pre \<noteq> []"
        then have "c # cs = [] @ (c # cs) \<and> length ([]::string) < length pre" by simp
        with first have "m (c # cs) \<noteq> Some r" by blast
        with Some show False by simp
      qed
      with e ms Some show "ds = r" by simp
    next
      assume "ds = r"
      then have "c # cs = [] @ (c # cs) \<and> m (c # cs) = Some ds \<and>
        (\<forall>pre' s' ds'. c # cs = pre' @ s' \<and> length pre' < length ([]::string) \<longrightarrow> m s' \<noteq> Some ds')"
        using Some by simp
      then show "firstMatch (\<lambda>s ds. m s = Some ds) (c # cs) ds"
        unfolding firstMatch_def by blast
    qed
    then show ?thesis using Some by auto
  next
    case None
    have "firstMatch (\<lambda>s ds. m s = Some ds) (c # cs) ds \<longleftrightarrow> firstMatch (\<lambda>s ds. m s = Some ds) cs ds"
    proof
      assume "firstMatch (\<lambda>s ds. m s = Some ds) (c # cs) ds"
      then obtain pre s where e: "c # cs = pre @ s" and ms: "m s = Some ds"
        and first: "\<forall>pre' s' ds'. c # cs = pre' @ s' \<and> length pre' < length pre \<longrightarrow> m s' \<noteq> Some ds'"
        unfolding firstMatch_def by blast
      from e ms None obtain pre0 where pre: "pre = c # pre0" and cs: "cs = pre0 @ s"
        by (cases pre) auto
      have "\<forall>pre' s' ds'. cs = pre' @ s' \<and> length pre' < length pre0 \<longrightarrow> m s' \<noteq> Some ds'"
      proof (intro allI impI)
        fix pre' s' ds'
        assume "cs = pre' @ s' \<and> length pre' < length pre0"
        then have "c # cs = (c # pre') @ s' \<and> length (c # pre') < length pre" using pre by simp
        with first show "m s' \<noteq> Some ds'" by blast
      qed
      with cs ms show "firstMatch (\<lambda>s ds. m s = Some ds) cs ds"
        unfolding firstMatch_def by blast
    next
      assume "firstMatch (\<lambda>s ds. m s = Some ds) cs ds"
      then obtain pre s where e: "cs = pre @ s" and ms: "m s = Some ds"
        and first: "\<forall>pre' s' ds'. cs = pre' @ s' \<and> length pre' < length pre \<longrightarrow> m s' \<noteq> Some ds'"
        unfolding firstMatch_def by blast
      have "\<forall>pre' s' ds'. c # cs = pre' @ s' \<and> length pre' < length (c # pre) \<longrightarrow> m s' \<noteq> Some ds'"
      proof (intro allI impI)
        fix pre' s' ds'
        assume a: "c # cs = pre' @ s' \<and> length pre' < length (c # pre)"
        show "m s' \<noteq> Some ds'"
        proof (cases pre')
          case Nil
          then show ?thesis using a None by simp
        next
          case (Cons x pre'')
          then have "cs = pre'' @ s' \<and> length pre'' < length pre" using a by simp
          with first show ?thesis by blast
        qed
      qed
      moreover have "c # cs = (c # pre) @ s" using e by simp
      ultimately show "firstMatch (\<lambda>s ds. m s = Some ds) (c # cs) ds"
        unfolding firstMatch_def using ms by blast
    qed
    then show ?thesis using None Cons.IH by simp
  qed
qed

lemma topN_search:
  "regexSearch (wordThenDigits w) q = Some ds \<longleftrightarrow> firstMatch (matchesWordDigits w) q ds"
  "regexSearch (wordThenDigits w) q = None \<longleftrightarrow> noMatch (matchesWordDigits w) q"
  by (simp_all add: regexSearch_Some_iff regexSearch_None_iff wordThenDigits_iff)

lemma nWord_search:
  "regexSearch digitsThenWord q = Some ds \<longleftrightarrow> firstMatch matchesDigitsWord q ds"
  "regexSearch digitsThenWord q = None \<longleftrightarrow> noMatch matchesDigitsWord q"
  by (simp_all add: regexSearch_Some_iff regexSearch_None_iff digitsThenWord_iff)

section \<open>A limit of 1e21\<close>

lemma toDouble_representable:
  assumes "2 ^ 52 \<le> q" and "q < 2 ^ 53" and "q * 2 ^ e < 2 ^ 1024"
  shows "toDouble (q * 2 ^ e) = Num (q * 2 ^ e)"
proof (cases "e = 0")
  case True
  then show ?thesis using assms(2) by (simp add: toDouble_exact)
next
  case False
  define n where "n = q * 2 ^ e"
  have lo: "2 ^ (52 + e) \<le> n"
    unfolding n_def power_add using assms(1) by (rule mult_le_mono1)
  have hi: "n < 2 ^ (53 + e)"
    unfolding n_def power_add using assms(2) by (simp add: mult_less_mono1)
  have "bitLength n \<le> 53 + e" using hi by (simp only: bitLength_le_iff)
  moreover have "\<not> bitLength n \<le> 52 + e" using lo by (simp only: bitLength_le_iff not_less)
  ultimately have bl: "bitLength n = 53 + e" by simp
  have big: "\<not> bitLength n \<le> 53" using bl False by simp
  have e: "bitLength n - 53 = e" using bl by simp
  have dv: "n div 2 ^ e = q" and md: "n mod 2 ^ e = 0" by (simp_all add: n_def)
  have small: "\<not> 2 ^ 1024 \<le> q * 2 ^ e" using assms(3) by simp
  have pos: "(0::nat) \<noteq> 2 ^ e" by simp
  have "toDouble n = Num (q * 2 ^ e)"
    unfolding toDouble_def Let_def e dv md using big small pos
    by (simp only: if_False mult_0_right not_less_zero simp_thms)
  then show ?thesis by (simp add: n_def)
qed

lemma shortestFrom_low:
  assumes "1 \<le> d - Suc j"
    and "roundTrips x (x div 10 ^ Suc j * 10 ^ Suc j)"
    and "\<not> roundTrips x ((x div 10 ^ Suc j + 1) * 10 ^ Suc j)"
  shows "shortestFrom x d (Suc j) = (x div 10 ^ Suc j, d - Suc j)"
  using assms unfolding shortestFrom.simps Let_def by (simp only: simp_thms if_True if_False)

lemma toDouble_1e21: "toDouble 1000000000000000000000 = Num 1000000000000000000000"
  using toDouble_representable[of 7629394531250000 17] by simp

lemma toDouble_1e22: "toDouble 10000000000000000000000 = Num 10000000000000000000000"
  using toDouble_representable[of 4768371582031250 21] by simp

lemma toDouble_2e21: "toDouble 2000000000000000000000 = Num 2000000000000000000000"
  using toDouble_representable[of 7629394531250000 18] by simp

lemma showNat_1e21: "showNat 1000000000000000000000 = ''1000000000000000000000''"
proof -
  have one: "showNat 1 = ''1''" by code_simp
  have zeros: "replicate 21 (CHR ''0'') = ''000000000000000000000''" by code_simp
  have "showNat (1 * 10 ^ 21) = showNat 1 @ replicate 21 (CHR ''0'')"
    by (rule showNat_times_pow10) simp
  then show ?thesis unfolding one zeros by simp
qed

lemma shortest_1e21: "shortestFrom 1000000000000000000000 22 21 = (1, 1)"
proof -
  have a: "1 \<le> (22::nat) - Suc 20" by simp
  have dv: "(1000000000000000000000::nat) div 10 ^ Suc 20 = 1" by simp
  have b: "roundTrips 1000000000000000000000 (1000000000000000000000 div 10 ^ Suc 20 * 10 ^ Suc 20)"
    unfolding dv using toDouble_1e21 by (simp add: roundTrips_def)
  have c: "\<not> roundTrips 1000000000000000000000 ((1000000000000000000000 div 10 ^ Suc 20 + 1) * 10 ^ Suc 20)"
    unfolding dv using toDouble_2e21 by (simp add: roundTrips_def)
  have "shortestFrom 1000000000000000000000 22 (Suc 20) = (1000000000000000000000 div 10 ^ Suc 20, 22 - Suc 20)"
    using a b c by (rule shortestFrom_low)
  then show ?thesis unfolding dv by simp
qed

lemma numberToString_1e21: "numberToString (Num 1000000000000000000000) = ''1e+21''"
proof -
  have len: "length (showNat 1000000000000000000000) = 22" unfolding showNat_1e21 by simp
  have nrt: "\<not> roundTrips 1000000000000000000000 10000000000000000000000"
    using toDouble_1e22 by (simp add: roundTrips_def)
  have one: "showNat (Suc 0) = ''1''" and tw: "showNat 21 = ''21''" by code_simp+
  show ?thesis
    by (simp add: numberToString_def Let_def len nrt shortest_1e21 one tw)
qed

lemma natOfDigits_1e21: "natOfDigits ''1000000000000000000000'' = 1000000000000000000000"
  by (simp add: natOfDigits_def digitVal_def)

lemma extractLimit_1e21:
  "extractLimit ''top 1000000000000000000000'' = Num 1000000000000000000000"
proof -
  have "firstLimitMatch limitPatterns ''top 1000000000000000000000'' = Some ''1000000000000000000000''"
    by code_simp
  then show ?thesis
    by (simp only: extractLimit_def option.case parseInt_def natOfDigits_1e21 toDouble_1e21)
qed

text \<open>
  Claim C2 says that the limit is validated as a bounded integer before it goes into the
  SQL text, so that a LIMIT clause always holds a decimal integer literal. Nothing bounds
  the captured number: the limit of the question \<open>top 1000000000000000000000\<close> is the
  double \<open>1e21\<close>, and the statement ends with \<open>LIMIT 1e+21\<close>.
\<close>

theorem huge_limit_counterexample:
  "sql (generateSQLFromNaturalLanguage ''top 1000000000000000000000'' sampleSchema None None False) =
     ''SELECT d.name as department, m.metric_name, m.metric_value, m.metric_date FROM metrics m INNER JOIN departments d ON m.department_id = d.id ORDER BY m.metric_value DESC LIMIT 1e+21''"
proof -
  have lower: "toLowerCase ''top 1000000000000000000000'' = ''top 1000000000000000000000''"
    by code_simp
  have agg: "agg_type (extractAggregation ''top 1000000000000000000000'') = ''none''"
    by code_simp
  have dept: "\<not> truthy (extractDepartment ''top 1000000000000000000000'' None)"
    by code_simp
  have dr: "dr_sql (extractDateRange ''top 1000000000000000000000'' None) = []"
    by code_simp
  have met: "extractMetrics ''top 1000000000000000000000'' = []"
    by code_simp
  have ob: "buildOrderBy (extractComparison ''top 1000000000000000000000'')
              (extractAggregation ''top 1000000000000000000000'') = '' ORDER BY m.metric_value DESC''"
    by code_simp
  show ?thesis
    unfolding generateSQL_sql lower
    by (simp add: agg dept dr met ob extractLimit_1e21 numberToString_1e21 Let_def)
qed

lemma generateSQL_matched_patterns:
  "matched_patterns (generateSQLFromNaturalLanguage q dbSchema dept dr debug) =
     [if agg_type (extractAggregation (toLowerCase q)) = ''none'' then ''basic_selection''
      else ''aggregation_'' @ agg_type (extractAggregation (toLowerCase q))]
     @ (if truthy (extractDepartment (toLowerCase q) dept) then [''department_filter''] else [])
     @ (if dr_sql (extractDateRange (toLowerCase q) dr) \<noteq> []
        then [''date_filter_'' @ dr_type (extractDateRange (toLowerCase q) dr)] else [])
     @ (if extractMetrics (toLowerCase q) \<noteq> [] then [''metric_filter''] else [])
     @ (if cmp_type (extractComparison (toLowerCase q)) \<noteq> ''none''
        then [''comparison_'' @ cmp_type (extractComparison (toLowerCase q))] else [])
     @ (if positive (extractLimit (toLowerCase q)) then [''limit_results''] else [])"
  by (simp add: generateSQLFromNaturalLanguage_def Let_def truthy_guard truthy_None
      split: prod.splits)

lemma firstMatch_matches: "firstMatch M q ds \<Longrightarrow> \<exists>s. M s ds"
  unfolding firstMatch_def by blast

lemma firstLimitMatch_digits:
  assumes "firstLimitMatch limitPatterns q = Some ds"
  shows "ds \<noteq> [] \<and> list_all isDigit ds"
proof -
  from assms consider
      "regexSearch (wordThenDigits ''top '') q = Some ds"
    | "regexSearch (wordThenDigits ''first '') q = Some ds"
    | "regexSearch digitsThenWord q = Some ds"
    by (auto simp add: limitPatterns_def split: option.splits)
  then show ?thesis
  proof cases
    case 1
    then obtain s where "matchesWordDigits ''top '' s ds"
      unfolding topN_search using firstMatch_matches by blast
    then show ?thesis unfolding matchesWordDigits_def by blast
  next
    case 2
    then obtain s where "matchesWordDigits ''first '' s ds"
      unfolding topN_search using firstMatch_matches by blast
    then show ?thesis unfolding matchesWordDigits_def by blast
  next
    case 3
    then obtain s where "matchesDigitsWord s ds"
      unfolding nWord_search using firstMatch_matches by blast
    then show ?thesis unfolding matchesDigitsWord_def by blast
  qed
qed

section \<open>The limit\<close>

text \<open>
  Claim C6 gives the default limit 10 to every question with a comparison keyword and no
  numeric pattern. The question \<open>worst performers\<close> has the comparison \<open>bottom\<close> and
  matches no numeric pattern, and its limit is 0: the default is tied to \<open>top\<close> and
  \<open>best\<close> only.
\<close>

theorem default_limit_counterexample:
  "cmp_type (extractComparison ''worst performers'') = ''bottom'' \<and>
   firstLimitMatch limitPatterns ''worst performers'' = None \<and>
   extractLimit ''worst performers'' = Num 0"
  by code_simp

text \<open>
  Claim C6, amended. The expressions are tried in the order \<open>top N\<close>, \<open>first N\<close>,
  \<open>N top|best|worst\<close>; the first of them that matches somewhere in the question gives
  the limit, the number written by the digits of its leftmost match. When none matches,
  the limit is 10 if the question contains \<open>top\<close> or \<open>best\<close>, and 0 otherwise.
\<close>

theorem limit_extraction_rule:
  "(firstMatch (matchesWordDigits ''top '') q ds \<longrightarrow> extractLimit q = parseInt ds) \<and>
   (noMatch (matchesWordDigits ''top '') q \<and> firstMatch (matchesWordDigits ''first '') q ds
      \<longrightarrow> extractLimit q = parseInt ds) \<and>
   (noMatch (matchesWordDigits ''top '') q \<and> noMatch (matchesWordDigits ''first '') q \<and>
    firstMatch matchesDigitsWord q ds \<longrightarrow> extractLimit q = parseInt ds) \<and>
   (noMatch (matchesWordDigits ''top '') q \<and> noMatch (matchesWordDigits ''first '') q \<and>
    noMatch matchesDigitsWord q \<longrightarrow>
      extractLimit q = (if includesStr q ''top'' \<or> includesStr q ''best'' then Num 10 else Num 0))"
  unfolding topN_search[symmetric] nWord_search[symmetric]
  by (simp add: extractLimit_def limitPatterns_def)

theorem limit_extraction_rule_witness:
  "firstMatch (matchesWordDigits ''top '') ''show me our top 5 departments'' ''5'' \<and>
   extractLimit ''show me our top 5 departments'' = parseInt ''5'' \<and>
   noMatch (matchesWordDigits ''top '') ''first 3 results'' \<and>
   firstMatch (matchesWordDigits ''first '') ''first 3 results'' ''3'' \<and>
   extractLimit ''first 3 results'' = parseInt ''3'' \<and>
   noMatch (matchesWordDigits ''top '') ''the 12 best deals'' \<and>
   noMatch (matchesWordDigits ''first '') ''the 12 best deals'' \<and>
   firstMatch matchesDigitsWord ''the 12 best deals'' ''12'' \<and>
   extractLimit ''the 12 best deals'' = parseInt ''12'' \<and>
   noMatch (matchesWordDigits ''top '') ''best customers'' \<and>
   noMatch (matchesWordDigits ''first '') ''best customers'' \<and>
   noMatch matchesDigitsWord ''best customers'' \<and>
   extractLimit ''best customers'' = Num 10"
proof -
  have a: "firstMatch (matchesWordDigits ''top '') ''show me our top 5 departments'' ''5''"
    unfolding topN_search[symmetric] by code_simp
  have b1: "noMatch (matchesWordDigits ''top '') ''first 3 results''"
    unfolding topN_search[symmetric] by code_simp
  have b2: "firstMatch (matchesWordDigits ''first '') ''first 3 results'' ''3''"
    unfolding topN_search[symmetric] by code_simp
  have c1: "noMatch (matchesWordDigits ''top '') ''the 12 best deals''"
    unfolding topN_search[symmetric] by code_simp
  have c2: "noMatch (matchesWordDigits ''first '') ''the 12 best deals''"
    unfolding topN_search[symmetric] by code_simp
  have c3: "firstMatch matchesDigitsWord ''the 12 best deals'' ''12''"
    unfolding nWord_search[symmetric] by code_simp
  have d1: "noMatch (matchesWordDigits ''top '') ''best customers''"
    unfolding topN_search[symmetric] by code_simp
  have d2: "noMatch (matchesWordDigits ''first '') ''best customers''"
    unfolding topN_search[symmetric] by code_simp
  have d3: "noMatch matchesDigitsWord ''best customers''"
    unfolding nWord_search[symmetric] by code_simp
  have d4: "includesStr ''best customers'' ''best''" by code_simp
  from limit_extraction_rule[of "''show me our top 5 departments''" "''5''"] a
  have A: "extractLimit ''show me our top 5 departments'' = parseInt ''5''" by blast
  from limit_extraction_rule[of "''first 3 results''" "''3''"] b1 b2
  have B: "extractLimit ''first 3 results'' = parseInt ''3''" by blast
  from limit_extraction_rule[of "''the 12 best deals''" "''12''"] c1 c2 c3
  have C: "extractLimit ''the 12 best deals'' = parseInt ''12''" by blast
  from limit_extraction_rule[of "''best customers''" "''''"] d1 d2 d3 d4
  have D: "extractLimit ''best customers'' = Num 10" by simp
  from a A b1 b2 B c1 c2 c3 C d1 d2 d3 D show ?thesis by blast
qed

section \<open>What every generated query holds\<close>

lemma generateExplanation_prefix:
  "\<exists>rest. generateExplanation c ps = ''Generated SQL query to '' @ rest"
  by (simp add: generateExplanation_def Let_def)

lemma generateSQL_explanation_prefix:
  "\<exists>rest. explanation (generateSQLFromNaturalLanguage q dbSchema dept dr debug) =
     ''Generated SQL query to '' @ rest"
proof -
  have "\<exists>c ps. explanation (generateSQLFromNaturalLanguage q dbSchema dept dr debug) =
      generateExplanation c ps"
    by (simp add: generateSQLFromNaturalLanguage_def Let_def split: prod.splits) blast
  then show ?thesis using generateExplanation_prefix by metis
qed

lemma generateSQL_matched_patterns_nonempty:
  "matched_patterns (generateSQLFromNaturalLanguage q dbSchema dept dr debug) \<noteq> []"
  unfolding generateSQL_matched_patterns by simp

lemma generateSQL_select_from:
  "\<exists>sel wh. sql (generateSQLFromNaturalLanguage q dbSchema dept dr debug) =
     ''SELECT d.name as department, m.metric_name, '' @ sel
     @ '' FROM metrics m INNER JOIN departments d ON m.department_id = d.id'' @ wh
     @ buildOrderBy (extractComparison (toLowerCase q)) (extractAggregation (toLowerCase q))
     @ (if positive (extractLimit (toLowerCase q))
        then '' LIMIT '' @ numberToString (extractLimit (toLowerCase q)) else [])"
proof -
  define lower where "lower = toLowerCase q"
  define sel where "sel =
     (if agg_type (extractAggregation lower) = ''none'' then ''m.metric_value, m.metric_date''
      else if agg_type (extractAggregation lower) = ''growth''
      then ''AVG(m.monthly_change_percent) as growth_rate''
      else agg_function (extractAggregation lower) @ ''(m.metric_value) as aggregated_value'')"
  define wh where "wh =
     (let conds =
              (if truthy (extractDepartment lower dept) then [''d.code = $'' @ showNat 1] else [])
              @ (if dr_sql (extractDateRange lower dr) \<noteq> []
                 then [dr_sql (extractDateRange lower dr)] else [])
              @ (if extractMetrics lower \<noteq> []
                 then [''m.metric_name IN (''
                        @ metricPlaceholders
                            (if truthy (extractDepartment lower dept) then 1 else 0)
                            (extractMetrics lower)
                        @ '')'']
                 else [])
        in if conds = [] then [] else '' WHERE '' @ join '' AND '' conds)
     @ (if agg_type (extractAggregation lower) \<noteq> ''none''
        then buildGroupBy (extractAggregation lower) (\<not> truthy (extractDepartment lower dept))
        else [])"
  have s: "(if agg_type (extractAggregation lower) = ''none''
        then ''d.name as department, m.metric_name, m.metric_value, m.metric_date''
        else buildAggregationSelect (extractAggregation lower)) =
        ''d.name as department, m.metric_name, '' @ sel"
    by (simp add: sel_def buildAggregationSelect_def)
  have c: "\<And>x. ''SELECT '' @ ''d.name as department, m.metric_name, '' @ x =
      ''SELECT d.name as department, m.metric_name, '' @ x"
    by simp
  have "sql (generateSQLFromNaturalLanguage q dbSchema dept dr debug) =
     ''SELECT d.name as department, m.metric_name, '' @ sel
     @ '' FROM metrics m INNER JOIN departments d ON m.department_id = d.id'' @ wh
     @ buildOrderBy (extractComparison lower) (extractAggregation lower)
     @ (if positive (extractLimit lower)
        then '' LIMIT '' @ numberToString (extractLimit lower) else [])"
    unfolding generateSQL_sql lower_def[symmetric] s wh_def
    by (simp only: append_assoc c)
  then show ?thesis unfolding lower_def by blast
qed

text \<open>Without an explicit range, a date range of kind \<open>none\<close> has no predicate.\<close>

lemma extractDateRange_none_sql:
  "dr_type (extractDateRange q None) = ''none'' \<Longrightarrow> dr_sql (extractDateRange q None) = []"
  by (simp add: extractDateRange_def truthy_def split: if_splits)

text \<open>The query of a question on which every extractor comes back empty.\<close>

lemma fallback_query:
  assumes "extractDepartment (toLowerCase q) None = None"
    and "dr_type (extractDateRange (toLowerCase q) None) = ''none''"
    and "agg_type (extractAggregation (toLowerCase q)) = ''none''"
    and "extractMetrics (toLowerCase q) = []"
    and "cmp_type (extractComparison (toLowerCase q)) = ''none''"
    and "extractLimit (toLowerCase q) = Num 0"
  shows "generateSQLFromNaturalLanguage q dbSchema None None debug =
     \<lparr>sql = ''SELECT d.name as department, m.metric_name, m.metric_value, m.metric_date FROM metrics m INNER JOIN departments d ON m.department_id = d.id ORDER BY m.metric_date DESC'',
      parameters = [],
      explanation = ''Generated SQL query to retrieve metrics. Matched patterns: basic_selection.'',
      matched_patterns = [''basic_selection''],
      department_filter = None,
      date_filter = ''none'',
      aggregation_type = ''none''\<rparr>"
  using assms extractDateRange_none_sql[OF assms(2)]
  by (simp add: generateSQLFromNaturalLanguage_def Let_def truthy_def buildOrderBy_def
      generateExplanation_def)

section \<open>The entry point\<close>

text \<open>
  Claim C3. The node answers with an error exactly when the schema description is absent
  from the context. The error names the missing schema, carries code 500 and the node's
  name, and comes with the context as it was: no generated query is returned or stored.
  With a schema present, every question compiles to a full query: a SELECT of the
  department name and the metric name from the joined tables, ending with its ORDER BY
  and LIMIT clauses, with an explanation and a pattern trail that is not empty. A
  question without overrides on which every extractor comes back empty gets the default
  query: unfiltered, unaggregated, most recent first.
\<close>

theorem compile_error_iff_schema_absent:
  "(isl (snd (handle nodeName ctx inputs)) \<longleftrightarrow> lookupSchema ctx = None) \<and>
   (lookupSchema ctx = None \<longrightarrow>
      handle nodeName ctx inputs =
        (ctx, Inl \<lparr>err_message = ''Database schema not found. Please run schema-discovery node first.'',
                   err_code = 500, err_name = nodeName\<rparr>)) \<and>
   (\<forall>dbSchema. lookupSchema ctx = Some dbSchema \<longrightarrow>
      snd (handle nodeName ctx inputs) =
        Inr (generateSQLFromNaturalLanguage (query inputs) dbSchema (in_department inputs)
               (in_date_range inputs) (in_debug inputs = Some True)) \<and>
      (\<exists>g sel wh rest.
         snd (handle nodeName ctx inputs) = Inr g \<and>
         sql g =
           ''SELECT d.name as department, m.metric_name, '' @ sel
           @ '' FROM metrics m INNER JOIN departments d ON m.department_id = d.id'' @ wh
           @ buildOrderBy (extractComparison (toLowerCase (query inputs)))
               (extractAggregation (toLowerCase (query inputs)))
           @ (if positive (extractLimit (toLowerCase (query inputs)))
              then '' LIMIT '' @ numberToString (extractLimit (toLowerCase (query inputs)))
              else []) \<and>
         explanation g = ''Generated SQL query to '' @ rest \<and>
         matched_patterns g \<noteq> [] \<and>
         aggregation_type g = agg_type (extractAggregation (toLowerCase (query inputs))) \<and>
         (in_department inputs = None \<and> in_date_range inputs = None \<and>
          extractDepartment (toLowerCase (query inputs)) None = None \<and>
          dr_type (extractDateRange (toLowerCase (query inputs)) None) = ''none'' \<and>
          agg_type (extractAggregation (toLowerCase (query inputs))) = ''none'' \<and>
          extractMetrics (toLowerCase (query inputs)) = [] \<and>
          cmp_type (extractComparison (toLowerCase (query inputs))) = ''none'' \<and>
          extractLimit (toLowerCase (query inputs)) = Num 0 \<longrightarrow>
          g = \<lparr>sql = ''SELECT d.name as department, m.metric_name, m.metric_value, m.metric_date FROM metrics m INNER JOIN departments d ON m.department_id = d.id ORDER BY m.metric_date DESC'',
               parameters = [],
               explanation = ''Generated SQL query to retrieve metrics. Matched patterns: basic_selection.'',
               matched_patterns = [''basic_selection''],
               department_filter = None,
               date_filter = ''none'',
               aggregation_type = ''none''\<rparr>)))"
proof (intro conjI allI impI)
  show "isl (snd (handle nodeName ctx inputs)) \<longleftrightarrow> lookupSchema ctx = None"
    by (cases "lookupSchema ctx") (simp_all add: handle_def Let_def)
next
  assume "lookupSchema ctx = None"
  then show "handle nodeName ctx inputs =
        (ctx, Inl \<lparr>err_message = ''Database schema not found. Please run schema-discovery node first.'',
                   err_code = 500, err_name = nodeName\<rparr>)"
    by (simp add: handle_def schemaMissing_def)
next
  fix dbSchema
  assume s: "lookupSchema ctx = Some dbSchema"
  define g where "g = generateSQLFromNaturalLanguage (query inputs) dbSchema (in_department inputs)
               (in_date_range inputs) (in_debug inputs = Some True)"
  have h: "snd (handle nodeName ctx inputs) = Inr g"
    using s by (cases "in_debug inputs") (simp_all add: handle_def Let_def g_def)
  show "snd (handle nodeName ctx inputs) =
        Inr (generateSQLFromNaturalLanguage (query inputs) dbSchema (in_department inputs)
               (in_date_range inputs) (in_debug inputs = Some True))"
    using h by (simp only: g_def)
  obtain sel wh where sq: "sql g =
           ''SELECT d.name as department, m.metric_name, '' @ sel
           @ '' FROM metrics m INNER JOIN departments d ON m.department_id = d.id'' @ wh
           @ buildOrderBy (extractComparison (toLowerCase (query inputs)))
               (extractAggregation (toLowerCase (query inputs)))
           @ (if positive (extractLimit (toLowerCase (query inputs)))
              then '' LIMIT '' @ numberToString (extractLimit (toLowerCase (query inputs)))
              else [])"
    unfolding g_def using generateSQL_select_from by blast
  obtain rest where ex: "explanation g = ''Generated SQL query to '' @ rest"
    unfolding g_def using generateSQL_explanation_prefix by blast
  have mp: "matched_patterns g \<noteq> []"
    unfolding g_def by (rule generateSQL_matched_patterns_nonempty)
  have ag: "aggregation_type g = agg_type (extractAggregation (toLowerCase (query inputs)))"
    unfolding g_def by (rule generateSQL_aggregation_type)
  have fb: "in_department inputs = None \<and> in_date_range inputs = None \<and>
          extractDepartment (toLowerCase (query inputs)) None = None \<and>
          dr_type (extractDateRange (toLowerCase (query inputs)) None) = ''none'' \<and>
          agg_type (extractAggregation (toLowerCase (query inputs))) = ''none'' \<and>
          extractMetrics (toLowerCase (query inputs)) = [] \<and>
          cmp_type (extractComparison (toLowerCase (query inputs))) = ''none'' \<and>
          extractLimit (toLowerCase (query inputs)) = Num 0 \<longrightarrow>
          g = \<lparr>sql = ''SELECT d.name as department, m.metric_name, m.metric_value, m.metric_date FROM metrics m INNER JOIN departments d ON m.department_id = d.id ORDER BY m.metric_date DESC'',
               parameters = [],
               explanation = ''Generated SQL query to retrieve metrics. Matched patterns: basic_selection.'',
               matched_patterns = [''basic_selection''],
               department_filter = None,
               date_filter = ''none'',
               aggregation_type = ''none''\<rparr>"
  proof
    assume a: "in_department inputs = None \<and> in_date_range inputs = None \<and>
          extractDepartment (toLowerCase (query inputs)) None = None \<and>
          dr_type (extractDateRange (toLowerCase (query inputs)) None) = ''none'' \<and>
          agg_type (extractAggregation (toLowerCase (query inputs))) = ''none'' \<and>
          extractMetrics (toLowerCase (query inputs)) = [] \<and>
          cmp_type (extractComparison (toLowerCase (query inputs))) = ''none'' \<and>
          extractLimit (toLowerCase (query inputs)) = Num 0"
    then have d: "in_department inputs = None" and r: "in_date_range inputs = None"
      and 1: "extractDepartment (toLowerCase (query inputs)) None = None"
      and 2: "dr_type (extractDateRange (toLowerCase (query inputs)) None) = ''none''"
      and 3: "agg_type (extractAggregation (toLowerCase (query inputs))) = ''none''"
      and 4: "extractMetrics (toLowerCase (query inputs)) = []"
      and 5: "cmp_type (extractComparison (toLowerCase (query inputs))) = ''none''"
      and 6: "extractLimit (toLowerCase (query inputs)) = Num 0"
      by simp_all
    show "g = \<lparr>sql = ''SELECT d.name as department, m.metric_name, m.metric_value, m.metric_date FROM metrics m INNER JOIN departments d ON m.department_id = d.id ORDER BY m.metric_date DESC'',
               parameters = [],
               explanation = ''Generated SQL query to retrieve metrics. Matched patterns: basic_selection.'',
               matched_patterns = [''basic_selection''],
               department_filter = None,
               date_filter = ''none'',
               aggregation_type = ''none''\<rparr>"
      unfolding g_def d r by (rule fallback_query[OF 1 2 3 4 5 6])
  qed
  show "\<exists>g sel wh rest.
         snd (handle nodeName ctx inputs) = Inr g \<and>
         sql g =
           ''SELECT d.name as department, m.metric_name, '' @ sel
           @ '' FROM metrics m INNER JOIN departments d ON m.department_id = d.id'' @ wh
           @ buildOrderBy (extractComparison (toLowerCase (query inputs)))
               (extractAggregation (toLowerCase (query inputs)))
           @ (if positive (extractLimit (toLowerCase (query inputs)))
              then '' LIMIT '' @ numberToString (extractLimit (toLowerCase (query inputs)))
              else []) \<and>
         explanation g = ''Generated SQL query to '' @ rest \<and>
         matched_patterns g \<noteq> [] \<and>
         aggregation_type g = agg_type (extractAggregation (toLowerCase (query inputs))) \<and>
         (in_department inputs = None \<and> in_date_range inputs = None \<and>
          extractDepartment (toLowerCase (query inputs)) None = None \<and>
          dr_type (extractDateRange (toLowerCase (query inputs)) None) = ''none'' \<and>
          agg_type (extractAggregation (toLowerCase (query inputs))) = ''none'' \<and>
          extractMetrics (toLowerCase (query inputs)) = [] \<and>
          cmp_type (extractComparison (toLowerCase (query inputs))) = ''none'' \<and>
          extractLimit (toLowerCase (query inputs)) = Num 0 \<longrightarrow>
          g = \<lparr>sql = ''SELECT d.name as department, m.metric_name, m.metric_value, m.metric_date FROM metrics m INNER JOIN departments d ON m.department_id = d.id ORDER BY m.metric_date DESC'',
               parameters = [],
               explanation = ''Generated SQL query to retrieve metrics. Matched patterns: basic_selection.'',
               matched_patterns = [''basic_selection''],
               department_filter = None,
               date_filter = ''none'',
               aggregation_type = ''none''\<rparr>)"
    by (intro exI[of _ g] exI[of _ sel] exI[of _ wh] exI[of _ rest] conjI h sq ex mp ag fb)
qed

theorem compile_error_iff_schema_absent_witness:
  "lookupSchema bareContext = None \<and>
   handle ''business-context-query'' bareContext helloInput =
     (bareContext,
      Inl \<lparr>err_message = ''Database schema not found. Please run schema-discovery node first.'',
           err_code = 500, err_name = ''business-context-query''\<rparr>) \<and>
   lookupSchema discoveredContext = Some sampleSchema \<and>
   snd (handle ''business-context-query'' discoveredContext helloInput) =
     Inr (generateSQLFromNaturalLanguage ''hello'' sampleSchema None None False) \<and>
   snd (handle ''business-context-query'' discoveredContext helloInput) =
     Inr \<lparr>sql = ''SELECT d.name as department, m.metric_name, m.metric_value, m.metric_date FROM metrics m INNER JOIN departments d ON m.department_id = d.id ORDER BY m.metric_date DESC'',
          parameters = [],
          explanation = ''Generated SQL query to retrieve metrics. Matched patterns: basic_selection.'',
          matched_patterns = [''basic_selection''],
          department_filter = None,
          date_filter = ''none'',
          aggregation_type = ''none''\<rparr>"
proof -
  note A = compile_error_iff_schema_absent[of "''business-context-query''" bareContext helloInput]
  note B = compile_error_iff_schema_absent[of "''business-context-query''" discoveredContext helloInput]
  have a: "lookupSchema bareContext = None" by (simp add: lookupSchema_def bareContext_def)
  have b: "lookupSchema discoveredContext = Some sampleSchema"
    by (simp add: lookupSchema_def discoveredContext_def)
  have q: "query helloInput = ''hello''" "in_department helloInput = None"
    "in_date_range helloInput = None" "(in_debug helloInput = Some True) = False"
    by (simp_all add: helloInput_def)
  have 1: "extractDepartment (toLowerCase ''hello'') None = None" by code_simp
  have 2: "dr_type (extractDateRange (toLowerCase ''hello'') None) = ''none''" by code_simp
  have 3: "agg_type (extractAggregation (toLowerCase ''hello'')) = ''none''" by code_simp
  have 4: "extractMetrics (toLowerCase ''hello'') = []" by code_simp
  have 5: "cmp_type (extractComparison (toLowerCase ''hello'')) = ''none''" by code_simp
  have 6: "extractLimit (toLowerCase ''hello'') = Num 0" by code_simp
  from A[THEN conjunct2, THEN conjunct1, rule_format, OF a]
  have e: "handle ''business-context-query'' bareContext helloInput =
     (bareContext,
      Inl \<lparr>err_message = ''Database schema not found. Please run schema-discovery node first.'',
           err_code = 500, err_name = ''business-context-query''\<rparr>)" .
  note S = B[THEN conjunct2, THEN conjunct2, rule_format, OF b, unfolded q]
  from S have s1: "snd (handle ''business-context-query'' discoveredContext helloInput) =
     Inr (generateSQLFromNaturalLanguage ''hello'' sampleSchema None None False)"
    by (rule conjunct1)
  from S[THEN conjunct2]
  have s2: "snd (handle ''business-context-query'' discoveredContext helloInput) =
     Inr \<lparr>sql = ''SELECT d.name as department, m.metric_name, m.metric_value, m.metric_date FROM metrics m INNER JOIN departments d ON m.department_id = d.id ORDER BY m.metric_date DESC'',
          parameters = [],
          explanation = ''Generated SQL query to retrieve metrics. Matched patterns: basic_selection.'',
          matched_patterns = [''basic_selection''],
          department_filter = None,
          date_filter = ''none'',
          aggregation_type = ''none''\<rparr>"
  proof (elim exE conjE)
    fix g sel wh rest
    assume g: "snd (handle ''business-context-query'' discoveredContext helloInput) = Inr g"
      and fb: "None = None \<and> None = None \<and>
          extractDepartment (toLowerCase ''hello'') None = None \<and>
          dr_type (extractDateRange (toLowerCase ''hello'') None) = ''none'' \<and>
          agg_type (extractAggregation (toLowerCase ''hello'')) = ''none'' \<and>
          extractMetrics (toLowerCase ''hello'') = [] \<and>
          cmp_type (extractComparison (toLowerCase ''hello'')) = ''none'' \<and>
          extractLimit (toLowerCase ''hello'') = Num 0 \<longrightarrow>
          g = \<lparr>sql = ''SELECT d.name as department, m.metric_name, m.metric_value, m.metric_date FROM metrics m INNER JOIN departments d ON m.department_id = d.id ORDER BY m.metric_date DESC'',
          parameters = [],
          explanation = ''Generated SQL query to retrieve metrics. Matched patterns: basic_selection.'',
          matched_patterns = [''basic_selection''],
          department_filter = None,
          date_filter = ''none'',
          aggregation_type = ''none''\<rparr>"
    have "g = \<lparr>sql = ''SELECT d.name as department, m.metric_name, m.metric_value, m.metric_date FROM metrics m INNER JOIN departments d ON m.department_id = d.id ORDER BY m.metric_date DESC'',
          parameters = [],
          explanation = ''Generated SQL query to retrieve metrics. Matched patterns: basic_selection.'',
          matched_patterns = [''basic_selection''],
          department_filter = None,
          date_filter = ''none'',
          aggregation_type = ''none''\<rparr>"
      by (rule fb[rule_format]) (intro conjI refl 1 2 3 4 5 6)
    with g show ?thesis by (simp only:)
  qed
  show ?thesis by (intro conjI a e b s1 s2)
qed

text \<open>
  Claim C8 says that compiling leaves the context it receives unchanged. The node stores
  its result there: after a successful call the context differs from the one passed in.
\<close>

theorem handle_changes_context_counterexample:
  "fst (handle ''business-context-query'' discoveredContext helloInput) \<noteq> discoveredContext"
  by (simp add: handle_def lookupSchema_def Let_def discoveredContext_def)

text \<open>
  Claim C8, amended. A successful call stores the SQL text and the parameter list in the
  context variables \<open>generated_query\<close> and \<open>query_parameters\<close>, and changes nothing
  else: the schema variable, every other variable and every other part of the context stay
  as they were. A failing call leaves the whole context unchanged.
\<close>

theorem handle_context_frame:
  "Context.more (fst (handle nodeName ctx inputs)) = Context.more ctx \<and>
   (lookupSchema ctx = None \<longrightarrow> fst (handle nodeName ctx inputs) = ctx) \<and>
   (\<forall>vs dbSchema. vars ctx = Some vs \<and> database_schema vs = Some dbSchema \<longrightarrow>
      (\<exists>vs' g. vars (fst (handle nodeName ctx inputs)) = Some vs' \<and>
         snd (handle nodeName ctx inputs) = Inr g \<and>
         g = generateSQLFromNaturalLanguage (query inputs) dbSchema (in_department inputs)
               (in_date_range inputs) (in_debug inputs = Some True) \<and>
         generated_query vs' = Some (sql g) \<and>
         query_parameters vs' = Some (parameters g) \<and>
         database_schema vs' = database_schema vs \<and>
         Vars.more vs' = Vars.more vs))"
  by (cases "lookupSchema ctx"; cases "in_debug inputs"; cases "vars ctx")
     (auto simp add: handle_def lookupSchema_def Let_def)

theorem handle_context_frame_witness:
  "lookupSchema bareContext = None \<and>
   fst (handle ''business-context-query'' bareContext helloInput) = bareContext \<and>
   (\<exists>vs. vars discoveredContext = Some vs \<and> database_schema vs = Some sampleSchema) \<and>
   (\<exists>vs' g. vars (fst (handle ''business-context-query'' discoveredContext helloInput)) = Some vs' \<and>
      g = generateSQLFromNaturalLanguage ''hello'' sampleSchema None None False \<and>
      generated_query vs' = Some (sql g) \<and> query_parameters vs' = Some (parameters g) \<and>
      database_schema vs' = Some sampleSchema)"
  using handle_context_frame[of "''business-context-query''" bareContext helloInput]
        handle_context_frame[of "''business-context-query''" discoveredContext helloInput]
  by (auto simp add: lookupSchema_def bareContext_def discoveredContext_def helloInput_def)

text \<open>
  Claim C9. The SQL text and the parameter list are determined by the question, the two
  explicit overrides and the schema: two calls that agree on these return the same SQL and
  the same parameters, whatever the debug flag, the node's name and the rest of the
  context are.
\<close>

theorem compile_deterministic:
  assumes "query i1 = query i2" and "in_department i1 = in_department i2"
    and "in_date_range i1 = in_date_range i2" and "lookupSchema ctx1 = lookupSchema ctx2"
  shows "map_sum (\<lambda>e. err_message e) (\<lambda>g. (sql g, parameters g)) (snd (handle n1 ctx1 i1)) =
         map_sum (\<lambda>e. err_message e) (\<lambda>g. (sql g, parameters g)) (snd (handle n2 ctx2 i2))"
  using assms
  by (cases "lookupSchema ctx2")
     (simp_all add: handle_def schemaMissing_def Let_def generateSQLFromNaturalLanguage_def
        split: prod.splits)


theorem compile_deterministic_witness:
  "query helloInput = query (helloInput\<lparr>in_debug := Some True\<rparr>) \<and>
   in_department helloInput = in_department (helloInput\<lparr>in_debug := Some True\<rparr>) \<and>
   in_date_range helloInput = in_date_range (helloInput\<lparr>in_debug := Some True\<rparr>) \<and>
   lookupSchema discoveredContext =
     lookupSchema (discoveredContext\<lparr>vars := Some \<lparr>database_schema = Some sampleSchema,
        generated_query = Some ''SELECT 1'', query_parameters = Some []\<rparr>\<rparr>) \<and>
   map_sum (\<lambda>e. err_message e) (\<lambda>g. (sql g, parameters g))
     (snd (handle ''first'' discoveredContext helloInput)) =
   map_sum (\<lambda>e. err_message e) (\<lambda>g. (sql g, parameters g))
     (snd (handle ''second''
        (discoveredContext\<lparr>vars := Some \<lparr>database_schema = Some sampleSchema,
           generated_query = Some ''SELECT 1'', query_parameters = Some []\<rparr>\<rparr>)
        (helloInput\<lparr>in_debug := Some True\<rparr>)))"
proof -
  have 1: "query helloInput = query (helloInput\<lparr>in_debug := Some True\<rparr>)" by simp
  have 2: "in_department helloInput = in_department (helloInput\<lparr>in_debug := Some True\<rparr>)" by simp
  have 3: "in_date_range helloInput = in_date_range (helloInput\<lparr>in_debug := Some True\<rparr>)" by simp
  have 4: "lookupSchema discoveredContext =
     lookupSchema (discoveredContext\<lparr>vars := Some \<lparr>database_schema = Some sampleSchema,
        generated_query = Some ''SELECT 1'', query_parameters = Some []\<rparr>\<rparr>)"
    by (simp add: lookupSchema_def discoveredContext_def)
  from compile_deterministic[OF 1 2 3 4, of "''first''" "''second''"] 1 2 3 4
  show ?thesis by blast
qed

section \<open>Explicit overrides\<close>

text \<open>
  Claim C5 says that an explicit date range goes through the rules of the implicit
  matching. \<open>parseDateRange\<close> knows \<open>q4\<close> only, and without the current-year
  condition: explicit \<open>q1\<close> is of kind \<open>custom\<close> with an empty predicate where the
  question text \<open>q1\<close> gives the quarter predicate, and explicit \<open>q4\<close> gives a predicate
  that differs from the one of the question text \<open>q4\<close>.
\<close>

theorem explicit_date_range_divergence:
  "extractDateRange ''show metrics'' (Some ''q1'') =
     \<lparr>dr_type = ''custom'', dr_sql = [], dr_parameters = Some []\<rparr> \<and>
   extractDateRange ''show metrics for q1'' None =
     \<lparr>dr_type = ''q1'',
      dr_sql = ''EXTRACT(QUARTER FROM m.metric_date) = 1 AND EXTRACT(YEAR FROM m.metric_date) = EXTRACT(YEAR FROM CURRENT_DATE)'',
      dr_parameters = Some []\<rparr> \<and>
   extractDateRange ''show metrics'' (Some ''q4'') =
     \<lparr>dr_type = ''q4'', dr_sql = ''EXTRACT(QUARTER FROM m.metric_date) = 4'',
      dr_parameters = Some []\<rparr> \<and>
   extractDateRange ''show metrics for q4'' None =
     \<lparr>dr_type = ''q4'',
      dr_sql = ''EXTRACT(QUARTER FROM m.metric_date) = 4 AND EXTRACT(YEAR FROM m.metric_date) = EXTRACT(YEAR FROM CURRENT_DATE)'',
      dr_parameters = Some []\<rparr>"
  by code_simp

text \<open>
  An override is supplied when it is present and not the empty string: the node reads an
  empty string as no override at all and infers the department from the question.
\<close>

lemma empty_department_override_is_absent:
  "department_filter
     (generateSQLFromNaturalLanguage ''show me finance numbers'' sampleSchema (Some []) None False)
   = Some ''finance''"
  by code_simp

text \<open>An override that is not empty is what \<open>extractDepartment\<close> returns.\<close>

lemma explicit_department_component:
  assumes "d \<noteq> []"
  shows "extractDepartment q (Some d) = Some d"
  using assms by (simp add: extractDepartment_def truthy_def)

text \<open>
  Claim C7. Every supplied explicit department override (a department name, so not the
  empty string) is the department filter of the generated query, whatever department
  keywords the question holds: it is the first bound parameter, and the pattern trail
  records the department filter.
\<close>

theorem explicit_department_wins:
  assumes "d \<noteq> []"
  shows "department_filter (generateSQLFromNaturalLanguage q dbSchema (Some d) dateRangeIn debug) = Some d \<and>
         hd (parameters (generateSQLFromNaturalLanguage q dbSchema (Some d) dateRangeIn debug)) = d \<and>
         ''department_filter'' \<in> set (matched_patterns
            (generateSQLFromNaturalLanguage q dbSchema (Some d) dateRangeIn debug))"
  using assms
  by (simp add: generateSQLFromNaturalLanguage_def Let_def explicit_department_component truthy_def
      split: prod.splits option.splits)

theorem explicit_department_wins_witness:
  "''sales'' \<noteq> [] \<and>
   department_filter (generateSQLFromNaturalLanguage ''show me finance numbers'' sampleSchema
      (Some ''sales'') None False) = Some ''sales'' \<and>
   hd (parameters (generateSQLFromNaturalLanguage ''show me finance numbers'' sampleSchema
      (Some ''sales'') None False)) = ''sales''"
proof -
  have ne: "''sales'' \<noteq> []" by simp
  from explicit_department_wins[OF ne, of "''show me finance numbers''" sampleSchema None False] ne
  show ?thesis by blast
qed

section \<open>The fallback query\<close>

text \<open>
  Claim C10. A question on which every extractor comes back empty (no department, no date
  range, no aggregation, no metric, no comparison, limit 0), compiled without explicit
  overrides, gives the plain selection ordered by metric date descending: no WHERE, no
  GROUP BY, no LIMIT, no parameters, and the explanation of a generic retrieval.
\<close>

theorem no_match_fallback:
  assumes "extractDepartment (toLowerCase q) None = None"
    and "dr_type (extractDateRange (toLowerCase q) None) = ''none''"
    and "agg_type (extractAggregation (toLowerCase q)) = ''none''"
    and "extractMetrics (toLowerCase q) = []"
    and "cmp_type (extractComparison (toLowerCase q)) = ''none''"
    and "extractLimit (toLowerCase q) = Num 0"
  shows "generateSQLFromNaturalLanguage q dbSchema None None debug =
     \<lparr>sql = ''SELECT d.name as department, m.metric_name, m.metric_value, m.metric_date FROM metrics m INNER JOIN departments d ON m.department_id = d.id ORDER BY m.metric_date DESC'',
      parameters = [],
      explanation = ''Generated SQL query to retrieve metrics. Matched patterns: basic_selection.'',
      matched_patterns = [''basic_selection''],
      department_filter = None,
      date_filter = ''none'',
      aggregation_type = ''none''\<rparr>"
  using assms by (rule fallback_query)

theorem no_match_fallback_witness:
  "extractDepartment (toLowerCase ''hello'') None = None \<and>
   dr_type (extractDateRange (toLowerCase ''hello'') None) = ''none'' \<and>
   agg_type (extractAggregation (toLowerCase ''hello'')) = ''none'' \<and>
   extractMetrics (toLowerCase ''hello'') = [] \<and>
   cmp_type (extractComparison (toLowerCase ''hello'')) = ''none'' \<and>
   extractLimit (toLowerCase ''hello'') = Num 0 \<and>
   generateSQLFromNaturalLanguage ''hello'' sampleSchema None None False =
     \<lparr>sql = ''SELECT d.name as department, m.metric_name, m.metric_value, m.metric_date FROM metrics m INNER JOIN departments d ON m.department_id = d.id ORDER BY m.metric_date DESC'',
      parameters = [],
      explanation = ''Generated SQL query to retrieve metrics. Matched patterns: basic_selection.'',
      matched_patterns = [''basic_selection''],
      department_filter = None,
      date_filter = ''none'',
      aggregation_type = ''none''\<rparr>"
proof -
  have 1: "extractDepartment (toLowerCase ''hello'') None = None" by code_simp
  have 2: "dr_type (extractDateRange (toLowerCase ''hello'') None) = ''none''" by code_simp
  have 3: "agg_type (extractAggregation (toLowerCase ''hello'')) = ''none''" by code_simp
  have 4: "extractMetrics (toLowerCase ''hello'') = []" by code_simp
  have 5: "cmp_type (extractComparison (toLowerCase ''hello'')) = ''none''" by code_simp
  have 6: "extractLimit (toLowerCase ''hello'') = Num 0" by code_simp
  from no_match_fallback[OF 1 2 3 4 5 6, of sampleSchema False] 1 2 3 4 5 6
  show ?thesis by blast
qed

end
